theory Spec2Isabelle
  imports Complex_Main
begin

section \<open>Exceptions\<close>

text \<open>
  Python exceptions are values. \<open>Exception msg\<close> stands for whatever the completion
  client raises (a network error, a time-out, a rejected request); the other constructors
  are the built-in exceptions the modelled code can raise by itself.
\<close>

datatype py_exception =
  Exception string | TypeError | ValueError | ZeroDivisionError | AttributeError

section \<open>ScreeningMetrics\<close>

text \<open>
  \<^verbatim>\<open>class ScreeningMetrics\<close> of \<^verbatim>\<open>agents/screening_agent.py\<close>. The two counters are Python
  integers. The tier operations never inspect a cost, they only add it to the running
  total, so the record is generic in the type of costs: whatever is proved about the
  tiers holds for every reading of Python's float addition.
\<close>

record 'c ScreeningMetrics =
  total_cost :: 'c
  total_disagreements :: int
  total_processed :: int

definition ScreeningMetrics_init :: "'c::zero ScreeningMetrics" where
  "ScreeningMetrics_init = \<lparr>total_cost = 0, total_disagreements = 0, total_processed = 0\<rparr>"

definition add_cost :: "'c::plus ScreeningMetrics \<Rightarrow> 'c \<Rightarrow> 'c ScreeningMetrics" where
  "add_cost self cost = self\<lparr>total_cost := total_cost self + cost\<rparr>"

definition add_disagreement :: "'c ScreeningMetrics \<Rightarrow> 'c ScreeningMetrics" where
  "add_disagreement self = self\<lparr>total_disagreements := total_disagreements self + 1\<rparr>"

definition increment_processed :: "'c ScreeningMetrics \<Rightarrow> 'c ScreeningMetrics" where
  "increment_processed self = self\<lparr>total_processed := total_processed self + 1\<rparr>"

section \<open>Marker search\<close>

text \<open>
  \<^verbatim>\<open>re.search(marker, text, re.IGNORECASE)\<close> for a marker made of ASCII letters only, which
  is all the tiers ever search for (\<^verbatim>\<open>XXX\<close>, \<^verbatim>\<open>YYY\<close>, \<^verbatim>\<open>ZZZ\<close>): the marker occurs somewhere in
  the text, letter case ignored. Only the truth value of the match object is used by the
  callers, so the search is a predicate. A text is its UTF-8 bytes; no byte of a
  multi-byte sequence is an ASCII letter, and no code point other than the letter itself
  and its other case matches \<^verbatim>\<open>X\<close>, \<^verbatim>\<open>Y\<close> or \<^verbatim>\<open>Z\<close> when case is ignored, so the search over
  bytes finds what the search over code points finds.
\<close>

definition lower :: "char \<Rightarrow> char" where
  "lower c = (let n = (of_char c :: nat) in if 65 \<le> n \<and> n \<le> 90 then char_of (n + 32) else c)"

fun match_here :: "string \<Rightarrow> string \<Rightarrow> bool" where
  "match_here [] text = True"
| "match_here (p # ps) [] = False"
| "match_here (p # ps) (c # cs) = (lower p = lower c \<and> match_here ps cs)"

fun re_search_IGNORECASE :: "string \<Rightarrow> string \<Rightarrow> bool" where
  "re_search_IGNORECASE pattern [] = match_here pattern []"
| "re_search_IGNORECASE pattern (c # cs) =
     (match_here pattern (c # cs) \<or> re_search_IGNORECASE pattern cs)"

section \<open>The completion provider as seen by a tier\<close>

text \<open>
  \<^verbatim>\<open>gpt_4o_mini(prompt, tier)\<close> and \<^verbatim>\<open>gpt_o3_mini(prompt, tier)\<close> are calls into the outside
  world. A provider takes the prompt and the state of the world \<open>'w\<close> and gives the new
  world together with what the call did: it raised (\<open>Inl e\<close>), it returned the pair
  \<^verbatim>\<open>(text, cost)\<close> (\<open>Inr (Some (text, cost))\<close>), or it returned \<^verbatim>\<open>None\<close> (\<open>Inr None\<close>), which
  \<^verbatim>\<open>_make_api_call\<close> does when its retry loop runs zero times.
\<close>

type_synonym ('c, 'w) provider =
  "string \<Rightarrow> 'w \<Rightarrow> (py_exception + (string \<times> 'c) option) \<times> 'w"

section \<open>The retry loop shared by the six tier operations\<close>

text \<open>
  Every operation of the two tiers has the same body:
  \<^verbatim>\<open>
  while True:
      try:
          text, cost = provider(prompt, ...)
          self.metrics.add_cost(cost)
          if re.search(..., text, re.IGNORECASE):   outcome = ...
          elif ...
          else:
              continue
          return text, outcome
      except Exception as e:
          raise
  \<close>
  and they differ in the provider called and in the \<^verbatim>\<open>if\<close>/\<^verbatim>\<open>elif\<close> chain only. The loop is
  written once, with the chain as the parameter \<open>extract\<close> (\<open>None\<close> is the \<^verbatim>\<open>else: continue\<close>
  branch). The loop may run forever, so its result is an option: \<open>None\<close> means that the
  operation never comes back. Unpacking \<^verbatim>\<open>None\<close> into \<^verbatim>\<open>text, cost\<close> raises \<^verbatim>\<open>TypeError\<close> inside
  the \<^verbatim>\<open>try\<close>; the handler re-raises whatever was raised.
\<close>

partial_function (option) retry_loop ::
  "('c::plus, 'w) provider \<Rightarrow> (string \<Rightarrow> 'd option) \<Rightarrow> string \<Rightarrow> 'c ScreeningMetrics \<Rightarrow> 'w
     \<Rightarrow> ((py_exception + string \<times> 'd) \<times> 'c ScreeningMetrics \<times> 'w) option"
where
  "retry_loop provider extract prompt metrics w =
     (case provider prompt w of
        (Inl e, w') \<Rightarrow> Some (Inl e, metrics, w')
      | (Inr None, w') \<Rightarrow> Some (Inl TypeError, metrics, w')
      | (Inr (Some (text, cost)), w') \<Rightarrow>
          (let metrics' = add_cost metrics cost in
           case extract text of
             Some outcome \<Rightarrow> Some (Inr (text, outcome), metrics', w')
           | None \<Rightarrow> retry_loop provider extract prompt metrics' w'))"

section \<open>CitationClassifier\<close>

text \<open>
  The \<^verbatim>\<open>if\<close>/\<^verbatim>\<open>elif\<close> chains of \<^verbatim>\<open>classify\<close>, \<^verbatim>\<open>review_classification\<close> and
  \<^verbatim>\<open>improve_classification\<close>, in the order of the source, and the operations. Decisions
  are the strings the Python returns. \<^verbatim>\<open>classify\<close> reads none of its four title and
  abstract arguments, only \<^verbatim>\<open>prompt\<close>.
\<close>

definition classify_decision :: "string \<Rightarrow> string option" where
  "classify_decision justification =
     (if re_search_IGNORECASE ''XXX'' justification then Some ''potentially relevant''
      else if re_search_IGNORECASE ''YYY'' justification then Some ''uncertain''
      else if re_search_IGNORECASE ''ZZZ'' justification then Some ''likely irrelevant''
      else None)"

definition review_classification_agreement :: "string \<Rightarrow> bool option" where
  "review_classification_agreement evaluation =
     (if re_search_IGNORECASE ''XXX'' evaluation then Some True
      else if re_search_IGNORECASE ''YYY'' evaluation then Some False
      else None)"

definition improve_classification_decision :: "string \<Rightarrow> string option" where
  "improve_classification_decision response =
     (if re_search_IGNORECASE ''XXX'' response then Some ''potentially relevant''
      else if re_search_IGNORECASE ''YYY'' response then Some ''uncertain''
      else if re_search_IGNORECASE ''ZZZ'' response then Some ''likely irrelevant''
      else None)"

definition classify ::
  "('c::plus, 'w) provider \<Rightarrow> string \<Rightarrow> 'c ScreeningMetrics \<Rightarrow> 'w
     \<Rightarrow> ((py_exception + string \<times> string) \<times> 'c ScreeningMetrics \<times> 'w) option" where
  "classify gpt_4o_mini prompt = retry_loop gpt_4o_mini classify_decision prompt"

definition review_classification ::
  "('c::plus, 'w) provider \<Rightarrow> string \<Rightarrow> 'c ScreeningMetrics \<Rightarrow> 'w
     \<Rightarrow> ((py_exception + string \<times> bool) \<times> 'c ScreeningMetrics \<times> 'w) option" where
  "review_classification gpt_o3_mini review_prompt =
     retry_loop gpt_o3_mini review_classification_agreement review_prompt"

definition improve_classification ::
  "('c::plus, 'w) provider \<Rightarrow> string \<Rightarrow> 'c ScreeningMetrics \<Rightarrow> 'w
     \<Rightarrow> ((py_exception + string \<times> string) \<times> 'c ScreeningMetrics \<times> 'w) option" where
  "improve_classification gpt_4o_mini improver_prompt =
     retry_loop gpt_4o_mini improve_classification_decision improver_prompt"

section \<open>DetailedScreener\<close>

definition screen_decision :: "string \<Rightarrow> string option" where
  "screen_decision justification =
     (if re_search_IGNORECASE ''YYY'' justification then Some ''included''
      else if re_search_IGNORECASE ''XXX'' justification then Some ''excluded''
      else None)"

definition review_screening_agreement :: "string \<Rightarrow> bool option" where
  "review_screening_agreement evaluation =
     (if re_search_IGNORECASE ''XXX'' evaluation then Some True
      else if re_search_IGNORECASE ''YYY'' evaluation then Some False
      else None)"

definition improve_screening_decision :: "string \<Rightarrow> string option" where
  "improve_screening_decision response =
     (if re_search_IGNORECASE ''XXX'' response then Some ''excluded''
      else if re_search_IGNORECASE ''YYY'' response then Some ''included''
      else None)"

definition screen ::
  "('c::plus, 'w) provider \<Rightarrow> string \<Rightarrow> 'c ScreeningMetrics \<Rightarrow> 'w
     \<Rightarrow> ((py_exception + string \<times> string) \<times> 'c ScreeningMetrics \<times> 'w) option" where
  "screen gpt_4o_mini prompt = retry_loop gpt_4o_mini screen_decision prompt"

definition review_screening ::
  "('c::plus, 'w) provider \<Rightarrow> string \<Rightarrow> 'c ScreeningMetrics \<Rightarrow> 'w
     \<Rightarrow> ((py_exception + string \<times> bool) \<times> 'c ScreeningMetrics \<times> 'w) option" where
  "review_screening gpt_o3_mini review_prompt =
     retry_loop gpt_o3_mini review_screening_agreement review_prompt"

definition improve_screening ::
  "('c::plus, 'w) provider \<Rightarrow> string \<Rightarrow> 'c ScreeningMetrics \<Rightarrow> 'w
     \<Rightarrow> ((py_exception + string \<times> string) \<times> 'c ScreeningMetrics \<times> 'w) option" where
  "improve_screening gpt_4o_mini improver_prompt =
     retry_loop gpt_4o_mini improve_screening_decision improver_prompt"

section \<open>Configuration and the transport boundary\<close>

text \<open>
  \<^verbatim>\<open>LLMConfig\<close> and \<^verbatim>\<open>AppConfig\<close> of \<^verbatim>\<open>config/config.py\<close>, with the fields that
  \<^verbatim>\<open>llms/chatgpt.py\<close> reads. A Python dictionary is an association list read with
  \<open>map_of\<close>; \<^verbatim>\<open>d.get(k, default)\<close> is \<open>dict_get\<close>, and the empty dictionary, which Python
  treats as false, is the empty list. Prices and the cost computed from them are Python
  floats, modelled by the reals: rounding is not part of this model.
\<close>

definition dict_get :: "('k \<times> 'v) list \<Rightarrow> 'k \<Rightarrow> 'v \<Rightarrow> 'v" where
  "dict_get d k dflt = (case map_of d k of Some v \<Rightarrow> v | None \<Rightarrow> dflt)"

record LLMConfig =
  api_key :: string
  gpt_4o_mini_model :: string
  o3_mini_model :: string
  timeout :: int
  max_retries :: int
  retry_delay :: int
  pricing :: "(string \<times> (string \<times> real) list) list"

record AppConfig =
  llm :: LLMConfig
  enable_cost_tracking :: bool

text \<open>
  What \<^verbatim>\<open>client.chat.completions.create\<close> is given and what it gives back: of the
  \<^verbatim>\<open>ChatCompletion\<close> object the code reads \<^verbatim>\<open>choices[0].message.content\<close> and the two token
  counts of \<^verbatim>\<open>usage\<close>. The client library declares \<^verbatim>\<open>usage\<close> optional, so a completion may
  come without it.
\<close>

record request =
  model :: string
  messages :: "(string \<times> string) list"
  request_timeout :: int

record CompletionUsage =
  prompt_tokens :: int
  completion_tokens :: int

record ChatCompletion =
  content :: string
  usage :: "CompletionUsage option"

text \<open>
  The remote service is an oracle: \<open>api n req\<close> is what the \<open>n\<close>-th call of
  \<^verbatim>\<open>completions.create\<close> (counted from 0) does when it is given \<open>req\<close>. The state of the
  transport records every request sent and every \<^verbatim>\<open>time.sleep\<close> made, oldest first.
\<close>

type_synonym api = "nat \<Rightarrow> request \<Rightarrow> py_exception + ChatCompletion"

record transport =
  requests :: "request list"
  sleeps :: "int list"

text \<open>
  \<^verbatim>\<open>_calculate_cost\<close> reads the token counts first, \<^verbatim>\<open>usage.prompt_tokens\<close> and
  \<^verbatim>\<open>usage.completion_tokens\<close>, which raises \<^verbatim>\<open>AttributeError\<close> when \<^verbatim>\<open>usage\<close> is \<^verbatim>\<open>None\<close>, and
  looks the model up in the pricing table only then.
\<close>

definition calculate_cost :: "AppConfig \<Rightarrow> ChatCompletion \<Rightarrow> string \<Rightarrow> py_exception + real" where
  "calculate_cost config response model_name =
     (case usage response of
        None \<Rightarrow> Inl AttributeError
      | Some usage' \<Rightarrow>
          (let pricing' = dict_get (pricing (llm config)) model_name [] in
           if pricing' = [] then Inr 0
           else Inr (real_of_int (prompt_tokens usage') * dict_get pricing' ''prompt'' 0
                   + real_of_int (completion_tokens usage') * dict_get pricing' ''completion'' 0)))"

text \<open>
  The body of the \<^verbatim>\<open>try\<close> in \<^verbatim>\<open>_make_api_call\<close>, at call number \<open>n\<close> of
  \<^verbatim>\<open>completions.create\<close>: the call, the reading of the content, \<^verbatim>\<open>_calculate_cost\<close>, and
  the pair to return. Whatever is raised on the way, by the client or by
  \<^verbatim>\<open>_calculate_cost\<close>, goes to the same handler.
\<close>

definition try_body :: "AppConfig \<Rightarrow> api \<Rightarrow> request \<Rightarrow> nat \<Rightarrow> py_exception + string \<times> real" where
  "try_body config api req n =
     (case api n req of
        Inl e \<Rightarrow> Inl e
      | Inr response \<Rightarrow>
          (case calculate_cost config response (model req) of
             Inl e \<Rightarrow> Inl e
           | Inr cost \<Rightarrow> Inr (content response, cost)))"

text \<open>
  The retry loop of \<^verbatim>\<open>_make_api_call\<close>, \<^verbatim>\<open>for attempt in range(max_retries)\<close>, as a
  recursion over the attempt numbers still to run. When the list is empty the loop is
  over and the function falls off its end, returning \<^verbatim>\<open>None\<close>; that happens only when
  \<^verbatim>\<open>max_retries\<close> is not positive, since the last attempt either returns or raises.
  \<^verbatim>\<open>time.sleep\<close> raises \<^verbatim>\<open>ValueError\<close> on a negative delay.
\<close>

fun attempts ::
  "AppConfig \<Rightarrow> api \<Rightarrow> request \<Rightarrow> nat list \<Rightarrow> transport
     \<Rightarrow> (py_exception + (string \<times> real) option) \<times> transport" where
  "attempts config api req [] w = (Inr None, w)"
| "attempts config api req (attempt # rest) w =
     (let w' = w\<lparr>requests := requests w @ [req]\<rparr> in
      case try_body config api req (length (requests w)) of
        Inr returned \<Rightarrow> (Inr (Some returned), w')
      | Inl e \<Rightarrow>
          if int attempt < max_retries (llm config) - 1
          then (if retry_delay (llm config) < 0 then (Inl ValueError, w')
                else attempts config api req rest
                       (w'\<lparr>sleeps := sleeps w' @ [retry_delay (llm config)]\<rparr>))
          else (Inl e, w'))"

datatype message_input = Str string | Dicts "(string \<times> string) list"

definition make_api_call ::
  "AppConfig \<Rightarrow> api \<Rightarrow> string \<Rightarrow> message_input \<Rightarrow> string option \<Rightarrow> transport
     \<Rightarrow> (py_exception + (string \<times> real) option) \<times> transport" where
  "make_api_call config api model_name messages' system_message w =
     (let formatted_messages =
        (case messages' of
           Str s \<Rightarrow>
             (case system_message of
                Some sm \<Rightarrow> (if sm \<noteq> [] then [(''system'', sm)] else [])
              | None \<Rightarrow> []) @ [(''user'', s)]
         | Dicts ms \<Rightarrow> ms)
      in attempts config api
           \<lparr>model = model_name, messages = formatted_messages,
            request_timeout = timeout (llm config)\<rparr>
           [0..<nat (max_retries (llm config))] w)"

text \<open>The request that \<^verbatim>\<open>_make_api_call\<close> sends at every attempt, on its own.\<close>

definition request_sent :: "AppConfig \<Rightarrow> string \<Rightarrow> message_input \<Rightarrow> string option \<Rightarrow> request" where
  "request_sent config model_name messages' system_message =
     \<lparr>model = model_name,
      messages =
        (case messages' of
           Str s \<Rightarrow>
             (case system_message of
                Some sm \<Rightarrow> (if sm \<noteq> [] then [(''system'', sm)] else [])
              | None \<Rightarrow> []) @ [(''user'', s)]
         | Dicts ms \<Rightarrow> ms),
      request_timeout = timeout (llm config)\<rparr>"

definition call_gpt_4o_mini ::
  "AppConfig \<Rightarrow> api \<Rightarrow> message_input \<Rightarrow> string option \<Rightarrow> transport
     \<Rightarrow> (py_exception + (string \<times> real) option) \<times> transport" where
  "call_gpt_4o_mini config api message system_message =
     make_api_call config api (gpt_4o_mini_model (llm config)) message system_message"

definition call_o3_mini ::
  "AppConfig \<Rightarrow> api \<Rightarrow> message_input \<Rightarrow> string option \<Rightarrow> transport
     \<Rightarrow> (py_exception + (string \<times> real) option) \<times> transport" where
  "call_o3_mini config api message system_message =
     make_api_call config api (o3_mini_model (llm config)) message system_message"

text \<open>
  The module-level functions \<^verbatim>\<open>gpt_4o_mini(message, tier)\<close> and \<^verbatim>\<open>gpt_o3_mini(message, tier)\<close>
  that the tiers call. Both ignore \<^verbatim>\<open>tier\<close> and go through \<^verbatim>\<open>get_llm_client()\<close>, whose
  constructor raises \<^verbatim>\<open>ValueError\<close> when no API key is configured; no client is kept in
  that case, so every call raises again.
\<close>

definition gpt_4o_mini :: "AppConfig \<Rightarrow> api \<Rightarrow> (real, transport) provider" where
  "gpt_4o_mini config api message w =
     (if api_key (llm config) = [] then (Inl ValueError, w)
      else call_gpt_4o_mini config api (Str message) None w)"

definition gpt_o3_mini :: "AppConfig \<Rightarrow> api \<Rightarrow> (real, transport) provider" where
  "gpt_o3_mini config api message w =
     (if api_key (llm config) = [] then (Inl ValueError, w)
      else call_o3_mini config api (Str message) None w)"

section \<open>get_summary\<close>

text \<open>
  The summary is a dictionary whose values are floats and integers. Python's \<^verbatim>\<open>/\<close> raises
  \<^verbatim>\<open>ZeroDivisionError\<close> on a zero divisor, where HOL's division returns 0.
\<close>

datatype py_value = PyFloat real | PyInt int

definition truediv :: "real \<Rightarrow> int \<Rightarrow> py_exception + real" where
  "truediv x n = (if n = 0 then Inl ZeroDivisionError else Inr (x / real_of_int n))"

definition get_summary :: "real ScreeningMetrics \<Rightarrow> py_exception + (string \<times> py_value) list" where
  "get_summary self =
     (case truediv (total_cost self) (max (total_processed self) 1) of
        Inl e \<Rightarrow> Inl e
      | Inr avg \<Rightarrow>
          Inr [(''total_cost'', PyFloat (total_cost self)),
               (''total_disagreements'', PyInt (total_disagreements self)),
               (''total_processed'', PyInt (total_processed self)),
               (''avg_cost_per_article'', PyFloat avg)])"

section \<open>One call of any tier operation, and sequences of calls\<close>

text \<open>
  To speak of every tier operation at once, the six operations are named, and
  \<open>perform\<close> calls the named one, given the two completion functions \<^verbatim>\<open>gpt_4o_mini\<close> and
  \<^verbatim>\<open>gpt_o3_mini\<close> as \<open>gpt4o\<close> and \<open>o3\<close>; the Python result \<^verbatim>\<open>(text, decision)\<close> or
  \<^verbatim>\<open>(text, agreement)\<close> is tagged with what it is. The classifier tier owns \<^verbatim>\<open>classify\<close>,
  \<^verbatim>\<open>review_classification\<close> and \<^verbatim>\<open>improve_classification\<close>, the detailed screener the other
  three; each tier has a \<^verbatim>\<open>ScreeningMetrics\<close> of its own.
\<close>

datatype operation =
  Classify | Review_classification | Improve_classification
| Screen | Review_screening | Improve_screening

datatype outcome = Decision string | Agreement bool

definition tagged ::
  "('d \<Rightarrow> outcome) \<Rightarrow> ((py_exception + string \<times> 'd) \<times> 's) option
     \<Rightarrow> ((py_exception + string \<times> outcome) \<times> 's) option" where
  "tagged tag result = map_option (\<lambda>(r, s). (map_sum id (map_prod id tag) r, s)) result"

fun perform ::
  "('c::plus, 'w) provider \<Rightarrow> ('c, 'w) provider \<Rightarrow> operation \<Rightarrow> string
     \<Rightarrow> 'c ScreeningMetrics \<Rightarrow> 'w
     \<Rightarrow> ((py_exception + string \<times> outcome) \<times> 'c ScreeningMetrics \<times> 'w) option" where
  "perform gpt4o o3 Classify prompt m w =
     tagged Decision (classify gpt4o prompt m w)"
| "perform gpt4o o3 Review_classification prompt m w =
     tagged Agreement (review_classification o3 prompt m w)"
| "perform gpt4o o3 Improve_classification prompt m w =
     tagged Decision (improve_classification gpt4o prompt m w)"
| "perform gpt4o o3 Screen prompt m w =
     tagged Decision (screen gpt4o prompt m w)"
| "perform gpt4o o3 Review_screening prompt m w =
     tagged Agreement (review_screening o3 prompt m w)"
| "perform gpt4o o3 Improve_screening prompt m w =
     tagged Decision (improve_screening gpt4o prompt m w)"

text \<open>The completion function an operation calls: the reviews call \<^verbatim>\<open>gpt_o3_mini\<close>.\<close>

fun provider_of :: "('c, 'w) provider \<Rightarrow> ('c, 'w) provider \<Rightarrow> operation \<Rightarrow> ('c, 'w) provider" where
  "provider_of gpt4o o3 Review_classification = o3"
| "provider_of gpt4o o3 Review_screening = o3"
| "provider_of gpt4o o3 operation = gpt4o"

text \<open>
  A caller makes one call after the other on the same tier object, whatever the earlier
  calls returned or raised; the metrics and the world are threaded through. A call that
  never comes back leaves nothing to run after it.
\<close>

fun run ::
  "('c::plus, 'w) provider \<Rightarrow> ('c, 'w) provider \<Rightarrow> (operation \<times> string) list
     \<Rightarrow> 'c ScreeningMetrics \<Rightarrow> 'w
     \<Rightarrow> ((py_exception + string \<times> outcome) list \<times> 'c ScreeningMetrics \<times> 'w) option" where
  "run gpt4o o3 [] m w = Some ([], m, w)"
| "run gpt4o o3 ((operation, prompt) # calls) m w =
     (case perform gpt4o o3 operation prompt m w of
        None \<Rightarrow> None
      | Some (r, m', w') \<Rightarrow>
          (case run gpt4o o3 calls m' w' of
             None \<Rightarrow> None
           | Some (rs, m'', w'') \<Rightarrow> Some (r # rs, m'', w'')))"

section \<open>The marker tables of the specification\<close>

text \<open>
  The specification describes the decision extractor as a scan of an ordered table of
  (marker, outcome) pairs that returns the outcome of the first marker found in the text.
  \<open>first_marker\<close> is that scan and \<open>marker_table\<close> gives each operation the table the
  specification states for it, in its priority order. They are compared below with the
  \<^verbatim>\<open>if\<close>/\<^verbatim>\<open>elif\<close> chains of the code. A text in which no marker of the table occurs is what
  the specification calls malformed output.
\<close>

fun first_marker :: "(string \<times> 'a) list \<Rightarrow> string \<Rightarrow> 'a option" where
  "first_marker [] text = None"
| "first_marker ((marker, outcome) # table) text =
     (if re_search_IGNORECASE marker text then Some outcome else first_marker table text)"

fun marker_table :: "operation \<Rightarrow> (string \<times> outcome) list" where
  "marker_table Classify =
     [(''XXX'', Decision ''potentially relevant''), (''YYY'', Decision ''uncertain''),
      (''ZZZ'', Decision ''likely irrelevant'')]"
| "marker_table Review_classification = [(''XXX'', Agreement True), (''YYY'', Agreement False)]"
| "marker_table Improve_classification =
     [(''XXX'', Decision ''potentially relevant''), (''YYY'', Decision ''uncertain''),
      (''ZZZ'', Decision ''likely irrelevant'')]"
| "marker_table Screen = [(''YYY'', Decision ''included''), (''XXX'', Decision ''excluded'')]"
| "marker_table Review_screening = [(''XXX'', Agreement True), (''YYY'', Agreement False)]"
| "marker_table Improve_screening =
     [(''XXX'', Decision ''excluded''), (''YYY'', Decision ''included'')]"

definition recognised :: "operation \<Rightarrow> string \<Rightarrow> bool" where
  "recognised operation text =
     list_ex (\<lambda>marker. re_search_IGNORECASE marker text) (map fst (marker_table operation))"

definition malformed :: "operation \<Rightarrow> py_exception + (string \<times> 'c) option \<Rightarrow> bool" where
  "malformed operation r =
     (case r of Inr (Some (text, cost)) \<Rightarrow> \<not> recognised operation text | _ \<Rightarrow> False)"

section \<open>The successive attempts of an operation\<close>

text \<open>
  An operation calls its provider again and again with the prompt it was given.
  \<open>world_after provider prompt n w\<close> is the world after \<open>n\<close> such calls made from \<open>w\<close>, and
  \<open>response provider prompt n w\<close> is what call number \<open>n\<close> (counted from 0) does.
  \<open>charge\<close> is the effect of one attempt on the metrics: \<^verbatim>\<open>add_cost\<close> runs when the call
  returned a pair and not otherwise. \<open>verdict\<close> is what one attempt makes of the
  operation: it raises, it returns, or (\<open>None\<close>) it goes round the loop again.
  \<open>paid\<close> lists the costs of the calls that returned.
\<close>

fun world_after :: "('c, 'w) provider \<Rightarrow> string \<Rightarrow> nat \<Rightarrow> 'w \<Rightarrow> 'w" where
  "world_after provider prompt 0 w = w"
| "world_after provider prompt (Suc n) w = world_after provider prompt n (snd (provider prompt w))"

definition response ::
  "('c, 'w) provider \<Rightarrow> string \<Rightarrow> nat \<Rightarrow> 'w \<Rightarrow> py_exception + (string \<times> 'c) option" where
  "response provider prompt n w = fst (provider prompt (world_after provider prompt n w))"

definition charge ::
  "'c::plus ScreeningMetrics \<Rightarrow> py_exception + (string \<times> 'c) option \<Rightarrow> 'c ScreeningMetrics" where
  "charge metrics r = (case r of Inr (Some (text, cost)) \<Rightarrow> add_cost metrics cost | _ \<Rightarrow> metrics)"

definition charged ::
  "('c::plus, 'w) provider \<Rightarrow> string \<Rightarrow> nat \<Rightarrow> 'c ScreeningMetrics \<Rightarrow> 'w \<Rightarrow> 'c ScreeningMetrics" where
  "charged provider prompt n metrics w =
     foldl charge metrics (map (\<lambda>i. response provider prompt i w) [0..<n])"

definition verdict ::
  "(string \<Rightarrow> 'd option) \<Rightarrow> py_exception + (string \<times> 'c) option
     \<Rightarrow> (py_exception + string \<times> 'd) option" where
  "verdict extract r =
     (case r of
        Inl e \<Rightarrow> Some (Inl e)
      | Inr None \<Rightarrow> Some (Inl TypeError)
      | Inr (Some (text, cost)) \<Rightarrow> map_option (\<lambda>outcome. Inr (text, outcome)) (extract text))"

fun paid :: "(py_exception + (string \<times> 'c) option) list \<Rightarrow> 'c list" where
  "paid [] = []"
| "paid (Inr (Some (text, cost)) # rs) = cost # paid rs"
| "paid (r # rs) = paid rs"

section \<open>Test doubles\<close>

text \<open>
  A scripted provider answers its \<open>n\<close>-th call with the \<open>n\<close>-th entry of a script and
  raises once the script is used up. Its world is the list of the prompts it has been
  given, oldest first, so the number of provider calls is the length of that list.
  \<open>AppConfig_default\<close> is \<^verbatim>\<open>AppConfig()\<close> with the defaults of \<^verbatim>\<open>config/config.py\<close> and the
  given API key.
\<close>

definition scripted :: "(py_exception + (string \<times> 'c) option) list \<Rightarrow> ('c, string list) provider" where
  "scripted script prompt calls =
     (if length calls < length script then script ! length calls
      else Inl (Exception ''script exhausted''),
      calls @ [prompt])"

definition AppConfig_default :: "string \<Rightarrow> AppConfig" where
  "AppConfig_default key =
     \<lparr>llm = \<lparr>api_key = key, gpt_4o_mini_model = ''gpt-4o-mini'', o3_mini_model = ''gpt-4o-mini'',
              timeout = 20, max_retries = 3, retry_delay = 10,
              pricing = [(''gpt-4o-mini'', [(''prompt'', 0.0005 / 1000), (''completion'', 0.0015 / 1000)]),
                         (''o3-mini'', [(''prompt'', 0.0005 / 1000), (''completion'', 0.0015 / 1000)])]\<rparr>,
      enable_cost_tracking = True\<rparr>"

declare retry_loop.simps [code]

section \<open>The floats of the cost\<close>

text \<open>
  \<^verbatim>\<open>total_cost\<close> starts as the float \<^verbatim>\<open>0.0\<close> and \<^verbatim>\<open>add_cost\<close> adds a float to it with \<^verbatim>\<open>+=\<close>, so
  what is accumulated is an IEEE 754 binary64 number and every addition is rounded. The
  costs in question are not negative, and of the floats that are not negative only the
  values matter here: \<open>Finite m e\<close> is the number \<open>m * 2 ^ e\<close> and \<open>Infinity\<close> is \<^verbatim>\<open>inf\<close>. A
  binary64 number has a significand \<open>m\<close> below \<open>2 ^ 53\<close>.
\<close>

datatype double = Finite nat int | Infinity

text \<open>The number of binary digits of a natural number, \<^verbatim>\<open>int.bit_length\<close>.\<close>

fun bits :: "nat \<Rightarrow> nat" where
  "bits n = (if n = 0 then 0 else Suc (bits (n div 2)))"

declare bits.simps [simp del]

definition precision :: nat where
  "precision = 53"

text \<open>
  The binary64 number nearest to \<open>s * 2 ^ e\<close>, a tie going to the even significand: the
  \<open>k\<close> digits that do not fit in 53 are cut off, the rest is rounded up when what was cut
  is more than half a unit, or exactly half and the rest is odd. A result of \<open>2 ^ 1024\<close>
  or more overflows to \<^verbatim>\<open>inf\<close>.
\<close>

definition round_double :: "nat \<Rightarrow> int \<Rightarrow> double" where
  "round_double s e =
     (let k = bits s - precision;
          q = s div 2 ^ k;
          r = s mod 2 ^ k;
          q' = (if 0 < k \<and> (2 ^ (k - 1) < r \<or> r = 2 ^ (k - 1) \<and> odd q) then q + 1 else q);
          m = (if q' = 2 ^ precision then 2 ^ (precision - 1) else q');
          e' = (if q' = 2 ^ precision then e + int k + 1 else e + int k)
      in if 1024 < int (bits m) + e' then Infinity else Finite m e')"

text \<open>
  The sum of two floats is their exact sum, rounded. (Two binary64 numbers have exponents
  from \<open>- 1074\<close>; a sum of theirs that needs rounding is at least \<open>2 ^ 53 * 2 ^ (- 1074)\<close>,
  a normal number, so rounding to 53 digits is all there is to it.)
\<close>

fun fadd :: "double \<Rightarrow> double \<Rightarrow> double" where
  "fadd (Finite m1 e1) (Finite m2 e2) =
     (let e = min e1 e2
      in round_double (m1 * 2 ^ nat (e1 - e) + m2 * 2 ^ nat (e2 - e)) e)"
| "fadd x y = Infinity"

text \<open>The order of the values, \<^verbatim>\<open>x <= y\<close>.\<close>

fun le_double :: "double \<Rightarrow> double \<Rightarrow> bool" where
  "le_double (Finite m1 e1) (Finite m2 e2) =
     (let e = min e1 e2 in m1 * 2 ^ nat (e1 - e) \<le> m2 * 2 ^ nat (e2 - e))"
| "le_double x Infinity = True"
| "le_double Infinity (Finite m e) = False"

definition significand_fits :: "double \<Rightarrow> bool" where
  "significand_fits x = (case x of Finite m e \<Rightarrow> m < 2 ^ precision | Infinity \<Rightarrow> True)"

text \<open>\<^verbatim>\<open>0.0\<close> and \<^verbatim>\<open>+\<close> on these floats, which is what \<^verbatim>\<open>add_cost\<close> then computes with.\<close>

instantiation double :: "{zero, plus}"
begin

definition zero_double :: double where
  "zero_double = Finite 0 0"

definition plus_double :: "double \<Rightarrow> double \<Rightarrow> double" where
  "plus_double x y = fadd x y"

instance ..

end

text \<open>
  A provider with a ledger: every cost it returns is written down, oldest first, beside
  the world of the provider. The ledger holds the costs of the successful calls of a
  run, in the order of the calls, those answered with malformed output included.
\<close>

definition metered :: "('c, 'w) provider \<Rightarrow> ('c, 'w \<times> 'c list) provider" where
  "metered provider prompt world =
     (case world of (w, ledger) \<Rightarrow>
        (case provider prompt w of (r, w') \<Rightarrow> (r, (w', ledger @ paid [r]))))"

section \<open>The retry loop, attempt by attempt\<close>

text \<open>
  One round of the loop in terms of \<open>verdict\<close> and \<open>charge\<close>, and its consequence: the loop
  returns exactly when some attempt has a verdict, with the verdict of the first such
  attempt, the metrics charged for every attempt up to it and the world those attempts
  left.
\<close>

lemma retry_loop_step:
  "retry_loop provider extract prompt m w =
     (case verdict extract (fst (provider prompt w)) of
        Some v \<Rightarrow> Some (v, charge m (fst (provider prompt w)), snd (provider prompt w))
      | None \<Rightarrow> retry_loop provider extract prompt (charge m (fst (provider prompt w))) (snd (provider prompt w)))"
  by (subst retry_loop.simps)
     (auto simp: verdict_def charge_def split: prod.splits sum.splits option.splits)

lemma response_0: "response provider prompt 0 w = fst (provider prompt w)"
  by (simp add: response_def)

lemma response_Suc: "response provider prompt (Suc n) w = response provider prompt n (snd (provider prompt w))"
  by (simp add: response_def)

lemma charged_0: "charged provider prompt 0 m w = m"
  by (simp add: charged_def)

lemma charged_Suc_front:
  "charged provider prompt (Suc n) m w =
     charged provider prompt n (charge m (fst (provider prompt w))) (snd (provider prompt w))"
proof -
  have "[0..<Suc n] = 0 # map Suc [0..<n]"
    by (simp add: upt_conv_Cons map_Suc_upt del: upt_Suc)
  then show ?thesis
    by (simp add: charged_def response_0 response_Suc comp_def del: upt_Suc)
qed

lemma retry_loop_returns:
  "(\<forall>i<k. verdict extract (response provider prompt i w) = None) \<Longrightarrow>
   verdict extract (response provider prompt k w) = Some v \<Longrightarrow>
   retry_loop provider extract prompt m w =
     Some (v, charged provider prompt (Suc k) m w, world_after provider prompt (Suc k) w)"
proof (induction k arbitrary: m w)
  case 0
  then show ?case
    by (subst retry_loop_step) (simp add: response_0 charged_Suc_front charged_0)
next
  case (Suc k)
  from Suc.prems(1) have first: "verdict extract (fst (provider prompt w)) = None"
    by (metis response_0 zero_less_Suc)
  from Suc.prems(1) have rest: "\<forall>i<k. verdict extract (response provider prompt i (snd (provider prompt w))) = None"
    by (metis response_Suc Suc_less_eq)
  from Suc.prems(2) have last: "verdict extract (response provider prompt k (snd (provider prompt w))) = Some v"
    by (simp add: response_Suc)
  show ?case
    by (subst retry_loop_step) (simp add: first Suc.IH [OF rest last] charged_Suc_front [of _ _ "Suc k"])
qed

lemma retry_loop_returned:
  fixes provider :: "('c::plus, 'w) provider" and extr :: "string \<Rightarrow> 'd option"
  assumes "retry_loop provider extr prompt m w = Some out"
  shows "\<exists>k v. (\<forall>i<k. verdict extr (response provider prompt i w) = None) \<and>
         verdict extr (response provider prompt k w) = Some v \<and>
         out = (v, charged provider prompt (Suc k) m w, world_after provider prompt (Suc k) w)"
proof (rule retry_loop.raw_induct [where P = "\<lambda>provider extr prompt m w out.
         \<exists>k v. (\<forall>i<k. verdict extr (response provider prompt i w) = None) \<and>
         verdict extr (response provider prompt k w) = Some v \<and>
         out = (v, charged provider prompt (Suc k) m w, world_after provider prompt (Suc k) w)", OF _ assms])
  fix loop :: "('c, 'w) provider \<Rightarrow> (string \<Rightarrow> 'd option) \<Rightarrow> string \<Rightarrow> 'c ScreeningMetrics \<Rightarrow> 'w
     \<Rightarrow> ((py_exception + string \<times> 'd) \<times> 'c ScreeningMetrics \<times> 'w) option"
  fix provider extr prompt m w out
  assume IH: "\<And>provider extr prompt m w out. loop provider extr prompt m w = Some out \<Longrightarrow>
         \<exists>k v. (\<forall>i<k. verdict extr (response provider prompt i w) = None) \<and>
         verdict extr (response provider prompt k w) = Some v \<and>
         out = (v, charged provider prompt (Suc k) m w, world_after provider prompt (Suc k) w)"
  assume unfolded: "(case provider prompt w of (Inl e, w') \<Rightarrow> Some (Inl e, m, w')
      | (Inr None, w') \<Rightarrow> Some (Inl TypeError, m, w')
      | (Inr (Some (text, cost)), w') \<Rightarrow>
          let metrics' = add_cost m cost
          in case extr text of
             None \<Rightarrow> loop provider extr prompt metrics' w'
             | Some outcome \<Rightarrow> Some (Inr (text, outcome), metrics', w')) = Some out"
  let ?r = "fst (provider prompt w)" and ?w = "snd (provider prompt w)"
  have body: "(case verdict extr ?r of
                 Some v \<Rightarrow> Some (v, charge m ?r, ?w)
               | None \<Rightarrow> loop provider extr prompt (charge m ?r) ?w) = Some out"
    using unfolded
    by (auto simp: verdict_def charge_def split: prod.splits sum.splits option.splits)
  show "\<exists>k v. (\<forall>i<k. verdict extr (response provider prompt i w) = None) \<and>
         verdict extr (response provider prompt k w) = Some v \<and>
         out = (v, charged provider prompt (Suc k) m w, world_after provider prompt (Suc k) w)"
  proof (cases "verdict extr ?r")
    case (Some v)
    with body have "out = (v, charge m ?r, ?w)" by simp
    with Some have "(\<forall>i<0::nat. verdict extr (response provider prompt i w) = None) \<and>
         verdict extr (response provider prompt 0 w) = Some v \<and>
         out = (v, charged provider prompt (Suc 0) m w, world_after provider prompt (Suc 0) w)"
      by (simp add: response_0 charged_Suc_front charged_0)
    then show ?thesis by blast
  next
    case None
    with body have "loop provider extr prompt (charge m ?r) ?w = Some out" by simp
    from IH [OF this] obtain k v where
      k: "\<forall>i<k. verdict extr (response provider prompt i ?w) = None"
         "verdict extr (response provider prompt k ?w) = Some v"
         "out = (v, charged provider prompt (Suc k) (charge m ?r) ?w, world_after provider prompt (Suc k) ?w)"
      by blast
    have "\<forall>i<Suc k. verdict extr (response provider prompt i w) = None"
      using k(1) None by (auto simp: less_Suc_eq_0_disj response_0 response_Suc)
    moreover have "verdict extr (response provider prompt (Suc k) w) = Some v"
      using k(2) by (simp add: response_Suc)
    moreover have "out = (v, charged provider prompt (Suc (Suc k)) m w, world_after provider prompt (Suc (Suc k)) w)"
      using k(3) by (simp add: charged_Suc_front [of _ _ "Suc k"])
    ultimately show ?thesis by blast
  qed
qed

section \<open>What the marker search finds\<close>

text \<open>
  The search succeeds exactly when the text has a piece that equals the marker up to
  letter case, wherever that piece is and whatever surrounds it.
\<close>

lemma match_here_iff:
  "match_here pat t \<longleftrightarrow> (\<exists>mid post. t = mid @ post \<and> map lower mid = map lower pat)"
proof (induction pat t rule: match_here.induct)
  case (1 t)
  then show ?case by simp
next
  case (2 p ps)
  then show ?case by simp
next
  case (3 p ps c cs)
  show ?case
  proof
    assume "match_here (p # ps) (c # cs)"
    with 3 obtain mid post where "lower p = lower c" "cs = mid @ post" "map lower mid = map lower ps"
      by auto
    then have "c # cs = (c # mid) @ post \<and> map lower (c # mid) = map lower (p # ps)" by simp
    then show "\<exists>mid post. c # cs = mid @ post \<and> map lower mid = map lower (p # ps)" by blast
  next
    assume "\<exists>mid post. c # cs = mid @ post \<and> map lower mid = map lower (p # ps)"
    then obtain mid post where m: "c # cs = mid @ post" "map lower mid = map lower (p # ps)" by blast
    from m(2) obtain d mid' where mid: "mid = d # mid'" by (cases mid) auto
    with m have "d = c" "cs = mid' @ post" "lower d = lower p" "map lower mid' = map lower ps" by auto
    with 3 show "match_here (p # ps) (c # cs)" by auto
  qed
qed

lemma re_search_IGNORECASE_iff:
  "re_search_IGNORECASE pat t \<longleftrightarrow>
     (\<exists>pre mid post. t = pre @ mid @ post \<and> map lower mid = map lower pat)"
proof (induction t)
  case Nil
  then show ?case by (auto simp: match_here_iff)
next
  case (Cons c cs)
  show ?case
  proof
    assume "re_search_IGNORECASE pat (c # cs)"
    then consider "match_here pat (c # cs)" | "re_search_IGNORECASE pat cs" by auto
    then show "\<exists>pre mid post. c # cs = pre @ mid @ post \<and> map lower mid = map lower pat"
    proof cases
      case 1
      then obtain mid post where "c # cs = [] @ mid @ post" "map lower mid = map lower pat"
        by (auto simp: match_here_iff)
      then show ?thesis by blast
    next
      case 2
      with Cons obtain pre mid post where "cs = pre @ mid @ post" "map lower mid = map lower pat"
        by blast
      then have "c # cs = (c # pre) @ mid @ post \<and> map lower mid = map lower pat" by simp
      then show ?thesis by blast
    qed
  next
    assume "\<exists>pre mid post. c # cs = pre @ mid @ post \<and> map lower mid = map lower pat"
    then obtain pre mid post where m: "c # cs = pre @ mid @ post" "map lower mid = map lower pat"
      by blast
    show "re_search_IGNORECASE pat (c # cs)"
    proof (cases pre)
      case Nil
      with m have "match_here pat (c # cs)" by (auto simp: match_here_iff)
      then show ?thesis by simp
    next
      case (Cons d pre')
      with m have "cs = pre' @ mid @ post" by simp
      with m(2) Cons.IH have "re_search_IGNORECASE pat cs" by blast
      then show ?thesis by simp
    qed
  qed
qed

section \<open>The code's chains are the specification's tables\<close>

text \<open>
  Each \<^verbatim>\<open>if\<close>/\<^verbatim>\<open>elif\<close> chain is the scan of the table that the specification gives for the
  operation, so every operation is the retry loop run with its provider and its table.
\<close>

lemma first_marker_None_iff:
  "first_marker table t = None \<longleftrightarrow> \<not> list_ex (\<lambda>marker. re_search_IGNORECASE marker t) (map fst table)"
  by (induction table t rule: first_marker.induct) auto

lemma verdict_None_iff_malformed:
  "verdict (first_marker (marker_table operation)) r = None \<longleftrightarrow> malformed operation r"
  by (auto simp: verdict_def malformed_def recognised_def first_marker_None_iff
           split: sum.splits option.splits)

lemma classify_decision_table:
  "map_option Decision (classify_decision t) = first_marker (marker_table Classify) t"
  by (simp add: classify_decision_def)

lemma review_classification_agreement_table:
  "map_option Agreement (review_classification_agreement t) =
     first_marker (marker_table Review_classification) t"
  by (simp add: review_classification_agreement_def)

lemma improve_classification_decision_table:
  "map_option Decision (improve_classification_decision t) =
     first_marker (marker_table Improve_classification) t"
  by (simp add: improve_classification_decision_def)

lemma screen_decision_table:
  "map_option Decision (screen_decision t) = first_marker (marker_table Screen) t"
  by (simp add: screen_decision_def)

lemma review_screening_agreement_table:
  "map_option Agreement (review_screening_agreement t) =
     first_marker (marker_table Review_screening) t"
  by (simp add: review_screening_agreement_def)

lemma improve_screening_decision_table:
  "map_option Decision (improve_screening_decision t) =
     first_marker (marker_table Improve_screening) t"
  by (simp add: improve_screening_decision_def)

lemma verdict_tagged:
  "verdict (\<lambda>t. map_option tag (extr t)) r =
     map_option (map_sum id (map_prod id tag)) (verdict extr r)"
  by (auto simp: verdict_def option.map_comp comp_def split: sum.splits option.splits)

lemma retry_loop_tagged:
  fixes provider :: "('c::plus, 'w) provider" and extr :: "string \<Rightarrow> 'd option"
  shows "tagged tag (retry_loop provider extr prompt m w) =
         retry_loop provider (\<lambda>t. map_option tag (extr t)) prompt m w"
proof (cases "retry_loop provider extr prompt m w")
  case (Some out)
  from retry_loop_returned [OF Some] obtain k v where
    k: "\<forall>i<k. verdict extr (response provider prompt i w) = None"
       "verdict extr (response provider prompt k w) = Some v"
       "out = (v, charged provider prompt (Suc k) m w, world_after provider prompt (Suc k) w)"
    by blast
  have "retry_loop provider (\<lambda>t. map_option tag (extr t)) prompt m w =
          Some (map_sum id (map_prod id tag) v, charged provider prompt (Suc k) m w,
                world_after provider prompt (Suc k) w)"
    by (rule retry_loop_returns) (simp_all add: verdict_tagged k)
  with Some k(3) show ?thesis by (simp add: tagged_def)
next
  case None
  have "retry_loop provider (\<lambda>t. map_option tag (extr t)) prompt m w = None"
  proof (rule ccontr)
    assume "retry_loop provider (\<lambda>t. map_option tag (extr t)) prompt m w \<noteq> None"
    then obtain out where "retry_loop provider (\<lambda>t. map_option tag (extr t)) prompt m w = Some out"
      by auto
    from retry_loop_returned [OF this] obtain k v where
      k: "\<forall>i<k. verdict (\<lambda>t. map_option tag (extr t)) (response provider prompt i w) = None"
         "verdict (\<lambda>t. map_option tag (extr t)) (response provider prompt k w) = Some v"
      by blast
    from k(1) have a: "\<forall>i<k. verdict extr (response provider prompt i w) = None"
      by (simp add: verdict_tagged)
    from k(2) obtain v' where b: "verdict extr (response provider prompt k w) = Some v'"
      by (auto simp: verdict_tagged)
    from retry_loop_returns [OF a b, of m] None show False by simp
  qed
  with None show ?thesis by (simp add: tagged_def)
qed

lemma perform_retry_loop:
  "perform gpt4o o3 operation prompt m w =
     retry_loop (provider_of gpt4o o3 operation) (first_marker (marker_table operation)) prompt m w"
proof (cases operation)
  case Classify
  then show ?thesis
    by (simp add: classify_def retry_loop_tagged classify_decision_table del: marker_table.simps)
next
  case Review_classification
  then show ?thesis
    by (simp add: review_classification_def retry_loop_tagged review_classification_agreement_table
             del: marker_table.simps)
next
  case Improve_classification
  then show ?thesis
    by (simp add: improve_classification_def retry_loop_tagged improve_classification_decision_table
             del: marker_table.simps)
next
  case Screen
  then show ?thesis
    by (simp add: screen_def retry_loop_tagged screen_decision_table del: marker_table.simps)
next
  case Review_screening
  then show ?thesis
    by (simp add: review_screening_def retry_loop_tagged review_screening_agreement_table
             del: marker_table.simps)
next
  case Improve_screening
  then show ?thesis
    by (simp add: improve_screening_def retry_loop_tagged improve_screening_decision_table
             del: marker_table.simps)
qed

section \<open>Every operation, attempt by attempt\<close>

text \<open>
  The same facts for \<open>perform\<close>, in terms of malformed responses: an operation whose first
  \<open>k\<close> responses are malformed is, after them, in the state \<open>charged \<dots> k\<close> and
  \<open>world_after \<dots> k\<close>, and goes on from there. The counters of the metrics are not touched
  by any attempt, and the total cost grows by the costs of the calls that returned.
\<close>

lemma retry_loop_first_answer:
  "provider prompt w = (Inr (Some (t, cost)), w') \<Longrightarrow>
   retry_loop provider extr prompt m w =
     (case extr t of
        Some d \<Rightarrow> Some (Inr (t, d), add_cost m cost, w')
      | None \<Rightarrow> retry_loop provider extr prompt (add_cost m cost) w')"
  by (subst retry_loop.simps) (simp add: Let_def split: option.splits)

lemma retry_loop_answer:
  "provider prompt w = (Inr (Some (t, cost)), w') \<Longrightarrow> extr t = Some d \<Longrightarrow>
   retry_loop provider extr prompt m w = Some (Inr (t, d), add_cost m cost, w')"
  by (subst retry_loop.simps) simp

lemma world_after_Suc_end:
  "world_after provider prompt (Suc n) w =
     snd (provider prompt (world_after provider prompt n w))"
  by (induction n arbitrary: w) simp_all

lemma charged_Suc_end:
  "charged provider prompt (Suc n) m w =
     charge (charged provider prompt n m w) (response provider prompt n w)"
  by (simp add: charged_def)

lemma charge_counters:
  "total_disagreements (charge m r) = total_disagreements m"
  "total_processed (charge m r) = total_processed m"
  by (simp_all add: charge_def add_cost_def split: sum.splits option.splits)

lemma charged_counters:
  "total_disagreements (charged provider prompt n m w) = total_disagreements m"
  "total_processed (charged provider prompt n m w) = total_processed m"
  by (induction n) (simp_all add: charged_0 charged_Suc_end charge_counters)

lemma total_cost_charge:
  "total_cost (charge m r) = foldl (+) (total_cost m) (paid [r])"
  by (auto simp: charge_def add_cost_def split: sum.splits option.splits)

lemma paid_append: "paid (rs @ rs') = paid rs @ paid rs'"
  by (induction rs rule: paid.induct) simp_all

lemma total_cost_charged:
  "total_cost (charged provider prompt n m w) =
     foldl (+) (total_cost m) (paid (map (\<lambda>i. response provider prompt i w) [0..<n]))"
  by (induction n) (simp_all add: charged_0 charged_Suc_end total_cost_charge paid_append)

lemma perform_returns:
  assumes "\<forall>i<k. malformed operation (response (provider_of gpt4o o3 operation) prompt i w)"
    and "verdict (first_marker (marker_table operation))
           (response (provider_of gpt4o o3 operation) prompt k w) = Some v"
  shows "perform gpt4o o3 operation prompt m w =
           Some (v, charged (provider_of gpt4o o3 operation) prompt (Suc k) m w,
                 world_after (provider_of gpt4o o3 operation) prompt (Suc k) w)"
  unfolding perform_retry_loop
  by (rule retry_loop_returns) (use assms in \<open>simp_all add: verdict_None_iff_malformed\<close>)

lemma perform_returned:
  assumes "perform gpt4o o3 operation prompt m w = Some out"
  shows "\<exists>k v. (\<forall>i<k. malformed operation (response (provider_of gpt4o o3 operation) prompt i w)) \<and>
           verdict (first_marker (marker_table operation))
             (response (provider_of gpt4o o3 operation) prompt k w) = Some v \<and>
           out = (v, charged (provider_of gpt4o o3 operation) prompt (Suc k) m w,
                  world_after (provider_of gpt4o o3 operation) prompt (Suc k) w)"
  using retry_loop_returned [OF assms [unfolded perform_retry_loop]]
  by (simp add: verdict_None_iff_malformed)

lemma perform_raises:
  assumes "\<forall>i<k. malformed operation (response (provider_of gpt4o o3 operation) prompt i w)"
    and "response (provider_of gpt4o o3 operation) prompt k w = Inl e"
  shows "perform gpt4o o3 operation prompt m w =
           Some (Inl e, charged (provider_of gpt4o o3 operation) prompt k m w,
                 world_after (provider_of gpt4o o3 operation) prompt (Suc k) w)"
proof -
  have "verdict (first_marker (marker_table operation))
           (response (provider_of gpt4o o3 operation) prompt k w) = Some (Inl e)"
    using assms(2) by (simp add: verdict_def)
  from perform_returns [OF assms(1) this, of m] show ?thesis
    by (simp add: charged_Suc_end assms(2) charge_def)
qed

lemma perform_retry_step:
  assumes "provider_of gpt4o o3 operation prompt w = (Inr (Some (t, cost)), w1)"
    and "\<not> recognised operation t"
  shows "perform gpt4o o3 operation prompt m w = perform gpt4o o3 operation prompt (add_cost m cost) w1"
proof -
  have "verdict (first_marker (marker_table operation))
          (fst (provider_of gpt4o o3 operation prompt w)) = None"
    using assms by (simp add: verdict_None_iff_malformed malformed_def)
  then show ?thesis
    unfolding perform_retry_loop
    by (subst retry_loop_step) (simp add: assms(1) charge_def)
qed

lemma perform_resumes:
  assumes "\<forall>i<k. malformed operation (response (provider_of gpt4o o3 operation) prompt i w)"
  shows "perform gpt4o o3 operation prompt m w =
         perform gpt4o o3 operation prompt
           (charged (provider_of gpt4o o3 operation) prompt k m w)
           (world_after (provider_of gpt4o o3 operation) prompt k w)"
  using assms
proof (induction k arbitrary: m w)
  case 0
  then show ?case by (simp add: charged_0)
next
  case (Suc k)
  let ?P = "provider_of gpt4o o3 operation"
  from Suc.prems have first: "malformed operation (fst (?P prompt w))"
    by (metis response_0 zero_less_Suc)
  from Suc.prems have rest: "\<forall>i<k. malformed operation (response ?P prompt i (snd (?P prompt w)))"
    by (metis response_Suc Suc_less_eq)
  from first have v: "verdict (first_marker (marker_table operation)) (fst (?P prompt w)) = None"
    by (simp add: verdict_None_iff_malformed)
  have "perform gpt4o o3 operation prompt m w =
        perform gpt4o o3 operation prompt (charge m (fst (?P prompt w))) (snd (?P prompt w))"
    unfolding perform_retry_loop
    by (subst retry_loop_step) (simp add: v)
  also have "\<dots> = perform gpt4o o3 operation prompt
           (charged ?P prompt k (charge m (fst (?P prompt w))) (snd (?P prompt w)))
           (world_after ?P prompt k (snd (?P prompt w)))"
    by (rule Suc.IH [OF rest])
  finally show ?case by (simp add: charged_Suc_front [of _ _ k])
qed

lemma perform_counters:
  assumes "perform gpt4o o3 operation prompt m w = Some (r, m', w')"
  shows "total_disagreements m' = total_disagreements m"
    and "total_processed m' = total_processed m"
proof -
  from perform_returned [OF assms] obtain k where
    "m' = charged (provider_of gpt4o o3 operation) prompt (Suc k) m w"
    by auto
  then show "total_disagreements m' = total_disagreements m"
    and "total_processed m' = total_processed m"
    by (simp_all only: charged_counters)
qed

lemma run_counters:
  "run gpt4o o3 calls m w = Some (rs, m', w') \<Longrightarrow>
   total_disagreements m' = total_disagreements m \<and> total_processed m' = total_processed m"
proof (induction calls arbitrary: m w rs)
  case Nil
  then show ?case by simp
next
  case (Cons call calls)
  obtain operation prompt where call: "call = (operation, prompt)" by (cases call)
  from Cons.prems call obtain r m1 w1 rs1 where
    first: "perform gpt4o o3 operation prompt m w = Some (r, m1, w1)"
    and rest: "run gpt4o o3 calls m1 w1 = Some (rs1, m', w')"
    by (auto split: option.splits)
  from Cons.IH [OF rest] perform_counters [OF first] show ?case by simp
qed

section \<open>The transport boundary: what a returned pair is made of\<close>

text \<open>
  \<^verbatim>\<open>_make_api_call\<close> is its retry loop over \<^verbatim>\<open>range(max_retries)\<close> on the request it has
  formatted. When the loop returns a pair, the last request it sent was answered and the
  pair is what the body of the \<^verbatim>\<open>try\<close> made of that answer: its content and
  \<^verbatim>\<open>_calculate_cost\<close> of it, which did not raise.
\<close>

lemma make_api_call_attempts:
  "make_api_call config api model_name msgs system_message w =
     attempts config api (request_sent config model_name msgs system_message)
       [0..<nat (max_retries (llm config))] w"
  by (simp add: make_api_call_def request_sent_def Let_def)

lemma model_request_sent [simp]:
  "model (request_sent config model_name msgs system_message) = model_name"
  by (simp add: request_sent_def)

lemma try_body_returns:
  "try_body config api req n = Inr (t, c) \<longleftrightarrow>
     (\<exists>completion. api n req = Inr completion \<and> t = content completion \<and>
        calculate_cost config completion (model req) = Inr c)"
  by (auto simp: try_body_def split: sum.splits)

lemma try_body_raises:
  "api n req = Inl e \<Longrightarrow> try_body config api req n = Inl e"
  by (simp add: try_body_def)

lemma attempts_success:
  "attempts config api req as w = (Inr (Some returned), w') \<Longrightarrow>
   requests w' \<noteq> [] \<and> last (requests w') = req \<and>
   try_body config api req (length (requests w') - 1) = Inr returned"
proof (induction as arbitrary: w)
  case Nil
  then show ?case by simp
next
  case (Cons attempt rest)
  show ?case
  proof (cases "try_body config api req (length (requests w))")
    case (Inr pair)
    with Cons.prems show ?thesis by (auto simp: Let_def)
  next
    case (Inl e)
    with Cons.prems have
      "attempts config api req rest
         (w\<lparr>requests := requests w @ [req], sleeps := sleeps w @ [retry_delay (llm config)]\<rparr>)
       = (Inr (Some returned), w')"
      by (auto simp: Let_def split: if_splits)
    from Cons.IH [OF this] show ?thesis .
  qed
qed

lemma calculate_cost_unpriced:
  "map_of (pricing (llm config)) model_name = None \<Longrightarrow>
   calculate_cost config completion model_name =
     (case usage completion of None \<Rightarrow> Inl AttributeError | Some u \<Rightarrow> Inr 0)"
  by (simp add: calculate_cost_def dict_get_def split: option.splits)

text \<open>
  The general run of the loop: when the body of the \<open>try\<close> fails at the first \<open>j\<close> attempts
  and returns at the next, the call returns that pair, having sent the request \<open>j + 1\<close>
  times and slept \<open>j\<close> times.
\<close>

lemma attempts_first_return:
  assumes "\<forall>i<j. \<exists>e. try_body config api req (length (requests w) + i) = Inl e"
    and "try_body config api req (length (requests w) + j) = Inr returned"
    and "a + j < nat (max_retries (llm config))"
    and "0 < j \<longrightarrow> 0 \<le> retry_delay (llm config)"
  shows "attempts config api req [a..<nat (max_retries (llm config))] w =
           (Inr (Some returned),
            w\<lparr>requests := requests w @ replicate (Suc j) req,
              sleeps := sleeps w @ replicate j (retry_delay (llm config))\<rparr>)"
  using assms
proof (induction j arbitrary: a w)
  case 0
  let ?N = "nat (max_retries (llm config))"
  from "0.prems"(3) have list: "[a..<?N] = a # [Suc a..<?N]" by (simp add: upt_conv_Cons)
  from "0.prems"(2) show ?case by (simp add: list Let_def)
next
  case (Suc j)
  let ?N = "nat (max_retries (llm config))"
  let ?w2 = "w\<lparr>requests := requests w @ [req], sleeps := sleeps w @ [retry_delay (llm config)]\<rparr>"
  from Suc.prems(3) have list: "[a..<?N] = a # [Suc a..<?N]" by (simp add: upt_conv_Cons)
  from Suc.prems(1) obtain e where first: "try_body config api req (length (requests w)) = Inl e"
    by (metis add.right_neutral zero_less_Suc)
  from Suc.prems(3) have again: "int a < max_retries (llm config) - 1" by linarith
  from Suc.prems(4) have delay: "0 \<le> retry_delay (llm config)" by simp
  have len: "length (requests ?w2) = Suc (length (requests w))" by simp
  have before: "\<forall>i<j. \<exists>e. try_body config api req (length (requests ?w2) + i) = Inl e"
  proof (intro allI impI)
    fix i assume "i < j"
    then have "Suc i < Suc j" by simp
    from Suc.prems(1) [rule_format, OF this]
    have "\<exists>e. try_body config api req (length (requests w) + Suc i) = Inl e" .
    then show "\<exists>e. try_body config api req (length (requests ?w2) + i) = Inl e"
      by (simp only: len add_Suc add_Suc_right)
  qed
  have at: "try_body config api req (length (requests ?w2) + j) = Inr returned"
    using Suc.prems(2) by (simp only: len add_Suc add_Suc_right)
  have "attempts config api req [Suc a..<?N] ?w2 =
           (Inr (Some returned),
            ?w2\<lparr>requests := requests ?w2 @ replicate (Suc j) req,
              sleeps := sleeps ?w2 @ replicate j (retry_delay (llm config))\<rparr>)"
    by (rule Suc.IH [OF before at]) (use Suc.prems(3) delay in simp_all)
  with first again delay show ?case
    by (simp add: list Let_def replicate_append_same)
qed

section \<open>The transport boundary: bounded attempts\<close>

text \<open>
  \<^verbatim>\<open>_make_api_call\<close> sends the same request at most \<^verbatim>\<open>max_retries\<close> times and sleeps
  \<^verbatim>\<open>retry_delay\<close> between two attempts; when every attempt fails it raises what the last
  one raised.
\<close>

lemma attempts_bounded:
  assumes "attempts config api req [a..<nat (max_retries (llm config))] w = (r, w')"
  shows "\<exists>n. n \<le> nat (max_retries (llm config)) - a \<and>
             (a < nat (max_retries (llm config)) \<longrightarrow> 1 \<le> n) \<and>
             requests w' = requests w @ replicate n req \<and>
             sleeps w' = sleeps w @ replicate (n - 1) (retry_delay (llm config))"
  using assms
proof (induction "nat (max_retries (llm config)) - a" arbitrary: a w)
  case 0
  then have "[a..<nat (max_retries (llm config))] = []" by simp
  with "0.prems" have "w' = w" by simp
  with 0 show ?case by auto
next
  case (Suc d)
  let ?N = "nat (max_retries (llm config))"
  from Suc.hyps(2) have lt: "a < ?N" by simp
  then have list: "[a..<?N] = a # [Suc a..<?N]" by (simp add: upt_conv_Cons)
  let ?w1 = "w\<lparr>requests := requests w @ [req]\<rparr>"
  have one: "w' = ?w1 \<Longrightarrow> ?case"
  proof -
    assume "w' = ?w1"
    then have "1 \<le> ?N - a \<and> (a < ?N \<longrightarrow> (1::nat) \<le> 1) \<and>
               requests w' = requests w @ replicate 1 req \<and>
               sleeps w' = sleeps w @ replicate (1 - 1) (retry_delay (llm config))"
      using lt by simp
    then show ?case by blast
  qed
  show ?case
  proof (cases "try_body config api req (length (requests w))")
    case (Inr pair)
    with Suc.prems list have "w' = ?w1" by (simp add: Let_def)
    then show ?thesis by (rule one)
  next
    case (Inl e)
    show ?thesis
    proof (cases "int a < max_retries (llm config) - 1")
      case False
      with Inl Suc.prems list have "w' = ?w1" by (simp add: Let_def)
      then show ?thesis by (rule one)
    next
      case True
      show ?thesis
      proof (cases "retry_delay (llm config) < 0")
        case neg: True
        with True Inl Suc.prems list have "w' = ?w1" by (simp add: Let_def)
        then show ?thesis by (rule one)
      next
        case nonneg: False
        let ?w2 = "?w1\<lparr>sleeps := sleeps ?w1 @ [retry_delay (llm config)]\<rparr>"
        from True Inl nonneg Suc.prems list
        have rec: "attempts config api req [Suc a..<?N] ?w2 = (r, w')"
          by (simp add: Let_def)
        from Suc.hyps(2) have d: "d = ?N - Suc a" by simp
        from True have more: "Suc a < ?N" by linarith
        from Suc.hyps(1) [OF d rec] more obtain n where
          n: "n \<le> ?N - Suc a" "1 \<le> n" "requests w' = requests ?w2 @ replicate n req"
             "sleeps w' = sleeps ?w2 @ replicate (n - 1) (retry_delay (llm config))"
          by blast
        from n(2) have rep: "replicate n (retry_delay (llm config)) =
            retry_delay (llm config) # replicate (n - 1) (retry_delay (llm config))"
          by (cases n) simp_all
        have "Suc n \<le> ?N - a \<and> (a < ?N \<longrightarrow> 1 \<le> Suc n) \<and>
              requests w' = requests w @ replicate (Suc n) req \<and>
              sleeps w' = sleeps w @ replicate (Suc n - 1) (retry_delay (llm config))"
          using n more rep by (simp add: replicate_append_same)
        then show ?thesis by blast
      qed
    qed
  qed
qed

lemma make_api_call_bounded:
  assumes "make_api_call config api model_name msgs system_message w = (r, w')"
  shows "\<exists>n req. n \<le> nat (max_retries (llm config)) \<and>
             requests w' = requests w @ replicate n req \<and>
             sleeps w' = sleeps w @ replicate (n - 1) (retry_delay (llm config))"
proof -
  from assms have
    "attempts config api (request_sent config model_name msgs system_message)
       [0..<nat (max_retries (llm config))] w = (r, w')"
    by (simp only: make_api_call_attempts)
  from attempts_bounded [OF this] show ?thesis by auto
qed

lemma attempts_all_fail:
  assumes "\<forall>i. a \<le> i \<and> i < nat (max_retries (llm config)) \<longrightarrow>
               try_body config api req (length (requests w) + (i - a)) = Inl (e i)"
    and "a < nat (max_retries (llm config))" and "0 \<le> retry_delay (llm config)"
  shows "attempts config api req [a..<nat (max_retries (llm config))] w =
           (Inl (e (nat (max_retries (llm config)) - 1)),
            w\<lparr>requests := requests w @ replicate (nat (max_retries (llm config)) - a) req,
              sleeps := sleeps w @ replicate (nat (max_retries (llm config)) - a - 1)
                                     (retry_delay (llm config))\<rparr>)"
  using assms
proof (induction "nat (max_retries (llm config)) - a" arbitrary: a w)
  case 0
  then show ?case by simp
next
  case (Suc d)
  let ?N = "nat (max_retries (llm config))"
  from Suc.prems(2) have list: "[a..<?N] = a # [Suc a..<?N]" by (simp add: upt_conv_Cons)
  from Suc.prems(1,2) have first: "try_body config api req (length (requests w)) = Inl (e a)"
    by (metis diff_self_eq_0 add.right_neutral le_refl)
  show ?case
  proof (cases "int a < max_retries (llm config) - 1")
    case False
    with Suc.prems(2) have a: "a = ?N - 1" by linarith
    with Suc.prems(2) have "?N - a = 1" by simp
    with False first list a show ?thesis by (simp add: Let_def)
  next
    case True
    let ?w2 = "w\<lparr>requests := requests w @ [req], sleeps := sleeps w @ [retry_delay (llm config)]\<rparr>"
    from True have more: "Suc a < ?N" by linarith
    from Suc.hyps(2) have d: "d = ?N - Suc a" by simp
    have shifted: "\<forall>i. Suc a \<le> i \<and> i < ?N \<longrightarrow>
               try_body config api req (length (requests ?w2) + (i - Suc a)) = Inl (e i)"
    proof (intro allI impI)
      fix i assume i: "Suc a \<le> i \<and> i < ?N"
      then have pre: "try_body config api req (length (requests w) + (i - a)) = Inl (e i)"
        using Suc.prems(1) by simp
      have len: "length (requests ?w2) = Suc (length (requests w))" by simp
      from i have "Suc (length (requests w)) + (i - Suc a) = length (requests w) + (i - a)"
        by arith
      with len have eq: "length (requests ?w2) + (i - Suc a) = length (requests w) + (i - a)"
        by (simp only:)
      from pre show "try_body config api req (length (requests ?w2) + (i - Suc a)) = Inl (e i)"
        unfolding eq .
    qed
    from more obtain j where j: "?N - a = Suc (Suc j)" "?N - Suc a = Suc j"
      by (metis Suc_diff_Suc Suc.prems(2) diff_Suc_Suc less_imp_Suc_add zero_less_diff)
    from Suc.hyps(1) [OF d shifted more Suc.prems(3)]
    have "attempts config api req [Suc a..<?N] ?w2 =
           (Inl (e (?N - 1)),
            ?w2\<lparr>requests := requests ?w2 @ replicate (?N - Suc a) req,
              sleeps := sleeps ?w2 @ replicate (?N - Suc a - 1) (retry_delay (llm config))\<rparr>)" .
    with True first list Suc.prems(3) j show ?thesis
      by (simp add: Let_def replicate_append_same)
  qed
qed

lemma gpt_calls_bounded:
  assumes "provider_of (gpt_4o_mini config api) (gpt_o3_mini config api) operation prompt w = (r, w')"
  shows "\<exists>n req. n \<le> nat (max_retries (llm config)) \<and>
             requests w' = requests w @ replicate n req \<and>
             sleeps w' = sleeps w @ replicate (n - 1) (retry_delay (llm config))"
proof (cases "api_key (llm config) = []")
  case True
  with assms have "w' = w"
    by (cases operation) (simp_all add: gpt_4o_mini_def gpt_o3_mini_def)
  then have "0 \<le> nat (max_retries (llm config)) \<and>
             requests w' = requests w @ replicate 0 (undefined :: request) \<and>
             sleeps w' = sleeps w @ replicate (0 - 1) (retry_delay (llm config))"
    by simp
  then show ?thesis by blast
next
  case False
  with assms obtain model_name where
    "make_api_call config api model_name (Str prompt) None w = (r, w')"
    by (cases operation)
       (simp_all add: gpt_4o_mini_def gpt_o3_mini_def call_gpt_4o_mini_def call_o3_mini_def)
  from make_api_call_bounded [OF this] show ?thesis .
qed

section \<open>Claim C3: the marker priorities of the detailed screener\<close>

text \<open>
  C3. For every response text, the detailed screener's \<^verbatim>\<open>screen\<close> scans the markers in
  the order YYY then XXX, mapping YYY to included and XXX to excluded, while its
  \<^verbatim>\<open>improve_screening\<close> scans in the order XXX then YYY, mapping XXX to excluded and YYY to
  included; for every text containing exactly one of the two markers both return the same
  outcome, and for every text containing both \<^verbatim>\<open>screen\<close> returns included while
  \<^verbatim>\<open>improve_screening\<close> returns excluded.

  The two chains of the code are the scans of these two tables, and for a provider that
  answers with the text, the two operations return as stated, with the cost of the call
  added.
\<close>

theorem detailed_screener_marker_priority:
  fixes gpt4o :: "('c::plus, 'w) provider"
  shows
    "screen_decision t = first_marker [(''YYY'', ''included''), (''XXX'', ''excluded'')] t \<and>
     improve_screening_decision t =
       first_marker [(''XXX'', ''excluded''), (''YYY'', ''included'')] t \<and>
     (gpt4o prompt w = (Inr (Some (t, cost)), w') \<longrightarrow>
        (re_search_IGNORECASE ''YYY'' t \<and> \<not> re_search_IGNORECASE ''XXX'' t \<longrightarrow>
           screen gpt4o prompt m w = Some (Inr (t, ''included''), add_cost m cost, w') \<and>
           improve_screening gpt4o prompt m w = Some (Inr (t, ''included''), add_cost m cost, w')) \<and>
        (re_search_IGNORECASE ''XXX'' t \<and> \<not> re_search_IGNORECASE ''YYY'' t \<longrightarrow>
           screen gpt4o prompt m w = Some (Inr (t, ''excluded''), add_cost m cost, w') \<and>
           improve_screening gpt4o prompt m w = Some (Inr (t, ''excluded''), add_cost m cost, w')) \<and>
        (re_search_IGNORECASE ''XXX'' t \<and> re_search_IGNORECASE ''YYY'' t \<longrightarrow>
           screen gpt4o prompt m w = Some (Inr (t, ''included''), add_cost m cost, w') \<and>
           improve_screening gpt4o prompt m w = Some (Inr (t, ''excluded''), add_cost m cost, w')))"
proof (intro conjI impI)
  show "screen_decision t = first_marker [(''YYY'', ''included''), (''XXX'', ''excluded'')] t"
    by (simp add: screen_decision_def)
  show "improve_screening_decision t =
       first_marker [(''XXX'', ''excluded''), (''YYY'', ''included'')] t"
    by (simp add: improve_screening_decision_def)
next
  assume call: "gpt4o prompt w = (Inr (Some (t, cost)), w')"
    and only: "re_search_IGNORECASE ''YYY'' t \<and> \<not> re_search_IGNORECASE ''XXX'' t"
  from only show "screen gpt4o prompt m w = Some (Inr (t, ''included''), add_cost m cost, w')"
    by (simp add: screen_def retry_loop_first_answer [of gpt4o prompt w t cost w', OF call] screen_decision_def)
  from only show "improve_screening gpt4o prompt m w = Some (Inr (t, ''included''), add_cost m cost, w')"
    by (simp add: improve_screening_def retry_loop_first_answer [of gpt4o prompt w t cost w', OF call] improve_screening_decision_def)
next
  assume call: "gpt4o prompt w = (Inr (Some (t, cost)), w')"
    and only: "re_search_IGNORECASE ''XXX'' t \<and> \<not> re_search_IGNORECASE ''YYY'' t"
  from only show "screen gpt4o prompt m w = Some (Inr (t, ''excluded''), add_cost m cost, w')"
    by (simp add: screen_def retry_loop_first_answer [of gpt4o prompt w t cost w', OF call] screen_decision_def)
  from only show "improve_screening gpt4o prompt m w = Some (Inr (t, ''excluded''), add_cost m cost, w')"
    by (simp add: improve_screening_def retry_loop_first_answer [of gpt4o prompt w t cost w', OF call] improve_screening_decision_def)
next
  assume call: "gpt4o prompt w = (Inr (Some (t, cost)), w')"
    and both: "re_search_IGNORECASE ''XXX'' t \<and> re_search_IGNORECASE ''YYY'' t"
  from both show "screen gpt4o prompt m w = Some (Inr (t, ''included''), add_cost m cost, w')"
    by (simp add: screen_def retry_loop_first_answer [of gpt4o prompt w t cost w', OF call] screen_decision_def)
  from both show "improve_screening gpt4o prompt m w = Some (Inr (t, ''excluded''), add_cost m cost, w')"
    by (simp add: improve_screening_def retry_loop_first_answer [of gpt4o prompt w t cost w', OF call] improve_screening_decision_def)
qed

theorem detailed_screener_marker_priority_witness:
  "re_search_IGNORECASE ''XXX'' ''xxx fails population, yyy on outcome'' \<and>
   re_search_IGNORECASE ''YYY'' ''xxx fails population, yyy on outcome'' \<and>
   screen (scripted [Inr (Some (''xxx fails population, yyy on outcome'', 1 / 1000))])
     ''screen this'' (ScreeningMetrics_init :: real ScreeningMetrics) []
   = Some (Inr (''xxx fails population, yyy on outcome'', ''included''),
           \<lparr>total_cost = 1 / 1000, total_disagreements = 0, total_processed = 0\<rparr>, [''screen this'']) \<and>
   improve_screening (scripted [Inr (Some (''xxx fails population, yyy on outcome'', 1 / 1000))])
     ''screen this'' (ScreeningMetrics_init :: real ScreeningMetrics) []
   = Some (Inr (''xxx fails population, yyy on outcome'', ''excluded''),
           \<lparr>total_cost = 1 / 1000, total_disagreements = 0, total_processed = 0\<rparr>, [''screen this''])"
proof -
  let ?t = "''xxx fails population, yyy on outcome''"
  have call: "scripted [Inr (Some (?t, 1 / 1000 :: real))] ''screen this'' [] =
                (Inr (Some (?t, 1 / 1000)), [''screen this''])"
    by (simp add: scripted_def)
  have x: "re_search_IGNORECASE ''XXX'' ?t" by code_simp
  have y: "re_search_IGNORECASE ''YYY'' ?t" by code_simp
  from detailed_screener_marker_priority
         [where gpt4o = "scripted [Inr (Some (?t, 1 / 1000 :: real))]" and prompt = "''screen this''"
            and w = "[]" and t = ?t and cost = "1 / 1000" and w' = "[''screen this'']"
            and m = ScreeningMetrics_init,
          THEN conjunct2, THEN conjunct2, rule_format, OF call, THEN conjunct2, THEN conjunct2,
          rule_format, OF conjI [OF x y]]
       x y
  show ?thesis by (simp add: add_cost_def ScreeningMetrics_init_def)
qed

section \<open>Claim C4: the marker priority of the classifier\<close>

text \<open>
  C4. For every response text containing at least one recognized marker, \<^verbatim>\<open>classify\<close>
  and \<^verbatim>\<open>improve_classification\<close> return the decision mapped to the first marker found when
  scanning, letter case ignored, in the order XXX (potentially relevant), YYY
  (uncertain), ZZZ (likely irrelevant), whatever surrounds the marker; for a text with
  exactly one recognized marker the result is that marker's decision.

  Both chains of the code are the scan of that table; when the scan finds a decision in
  the provider's answer, both operations return the answer with it; a marker that is the
  only one of the three to occur decides; and a marker is found in every text that holds
  a piece equal to it up to letter case, whatever stands before and after.
\<close>

theorem classifier_marker_priority:
  fixes gpt4o :: "('c::plus, 'w) provider"
  shows
    "classify_decision t =
       first_marker [(''XXX'', ''potentially relevant''), (''YYY'', ''uncertain''),
                     (''ZZZ'', ''likely irrelevant'')] t \<and>
     improve_classification_decision t =
       first_marker [(''XXX'', ''potentially relevant''), (''YYY'', ''uncertain''),
                     (''ZZZ'', ''likely irrelevant'')] t \<and>
     (gpt4o prompt w = (Inr (Some (t, cost)), w') \<and>
      first_marker [(''XXX'', ''potentially relevant''), (''YYY'', ''uncertain''),
                    (''ZZZ'', ''likely irrelevant'')] t = Some decision \<longrightarrow>
        classify gpt4o prompt m w = Some (Inr (t, decision), add_cost m cost, w') \<and>
        improve_classification gpt4o prompt m w = Some (Inr (t, decision), add_cost m cost, w')) \<and>
     ((marker, decision) \<in> set [(''XXX'', ''potentially relevant''), (''YYY'', ''uncertain''),
                                 (''ZZZ'', ''likely irrelevant'')] \<and>
      re_search_IGNORECASE marker t \<and>
      (\<forall>other \<in> set [''XXX'', ''YYY'', ''ZZZ''].
          other \<noteq> marker \<longrightarrow> \<not> re_search_IGNORECASE other t) \<longrightarrow>
        classify_decision t = Some decision \<and> improve_classification_decision t = Some decision) \<and>
     (map lower mid = map lower marker \<longrightarrow> re_search_IGNORECASE marker (pre @ mid @ post))"
proof (intro conjI impI)
  show "classify_decision t =
       first_marker [(''XXX'', ''potentially relevant''), (''YYY'', ''uncertain''),
                     (''ZZZ'', ''likely irrelevant'')] t"
    by (simp add: classify_decision_def)
  show "improve_classification_decision t =
       first_marker [(''XXX'', ''potentially relevant''), (''YYY'', ''uncertain''),
                     (''ZZZ'', ''likely irrelevant'')] t"
    by (simp add: improve_classification_decision_def)
next
  assume a: "gpt4o prompt w = (Inr (Some (t, cost)), w') \<and>
      first_marker [(''XXX'', ''potentially relevant''), (''YYY'', ''uncertain''),
                    (''ZZZ'', ''likely irrelevant'')] t = Some decision"
  have "classify_decision t =
       first_marker [(''XXX'', ''potentially relevant''), (''YYY'', ''uncertain''),
                     (''ZZZ'', ''likely irrelevant'')] t"
    by (simp add: classify_decision_def)
  with a have c: "classify_decision t = Some decision" by (simp only:)
  have "improve_classification_decision t =
       first_marker [(''XXX'', ''potentially relevant''), (''YYY'', ''uncertain''),
                     (''ZZZ'', ''likely irrelevant'')] t"
    by (simp add: improve_classification_decision_def)
  with a have i: "improve_classification_decision t = Some decision" by (simp only:)
  from a have call: "gpt4o prompt w = (Inr (Some (t, cost)), w')" by simp
  show "classify gpt4o prompt m w = Some (Inr (t, decision), add_cost m cost, w')"
    by (simp add: classify_def retry_loop_first_answer [of gpt4o prompt w t cost w', OF call] c)
  show "improve_classification gpt4o prompt m w = Some (Inr (t, decision), add_cost m cost, w')"
    by (simp add: improve_classification_def
          retry_loop_first_answer [of gpt4o prompt w t cost w', OF call] i)
next
  assume a: "(marker, decision) \<in> set [(''XXX'', ''potentially relevant''), (''YYY'', ''uncertain''),
                                 (''ZZZ'', ''likely irrelevant'')] \<and>
      re_search_IGNORECASE marker t \<and>
      (\<forall>other \<in> set [''XXX'', ''YYY'', ''ZZZ''].
          other \<noteq> marker \<longrightarrow> \<not> re_search_IGNORECASE other t)"
  then show "classify_decision t = Some decision"
    by (auto simp: classify_decision_def)
  from a show "improve_classification_decision t = Some decision"
    by (auto simp: improve_classification_decision_def)
next
  assume "map lower mid = map lower marker"
  then show "re_search_IGNORECASE marker (pre @ mid @ post)"
    unfolding re_search_IGNORECASE_iff by blast
qed

theorem classifier_marker_priority_witness:
  "classify (scripted [Inr (Some (''Some outcomes overlap (yyy) but the population differs: ZZZ'', 1 / 1000))])
     ''classify this'' (ScreeningMetrics_init :: real ScreeningMetrics) []
   = Some (Inr (''Some outcomes overlap (yyy) but the population differs: ZZZ'', ''uncertain''),
           \<lparr>total_cost = 1 / 1000, total_disagreements = 0, total_processed = 0\<rparr>,
           [''classify this''])"
proof -
  let ?t = "''Some outcomes overlap (yyy) but the population differs: ZZZ''"
  have call: "scripted [Inr (Some (?t, 1 / 1000 :: real))] ''classify this'' [] =
                (Inr (Some (?t, 1 / 1000)), [''classify this''])"
    by (simp add: scripted_def)
  have found: "first_marker [(''XXX'', ''potentially relevant''), (''YYY'', ''uncertain''),
                    (''ZZZ'', ''likely irrelevant'')] ?t = Some ''uncertain''"
    by code_simp
  from classifier_marker_priority
         [where gpt4o = "scripted [Inr (Some (?t, 1 / 1000 :: real))]" and prompt = "''classify this''"
            and w = "[]" and t = ?t and cost = "1 / 1000" and w' = "[''classify this'']"
            and m = ScreeningMetrics_init and decision = "''uncertain''",
          THEN conjunct2, THEN conjunct2, THEN conjunct1, rule_format, OF conjI [OF call found],
          THEN conjunct1]
  show ?thesis by (simp add: add_cost_def ScreeningMetrics_init_def)
qed

section \<open>Claim C1: the disagreement counter\<close>

text \<open>
  C1 states that \<^verbatim>\<open>total_disagreements\<close> grows by one for each review call that returns
  Agreement = false. The review operations do not do that: neither of them, nor any
  other tier operation, calls \<^verbatim>\<open>add_disagreement\<close>. A review that answers \<^verbatim>\<open>YYY\<close> returns
  \<^verbatim>\<open>False\<close> and leaves the counter at 0.
\<close>

theorem disagreement_counter_counterexample:
  "review_classification (scripted [Inr (Some (''YYY the decision overlooks the comparator'', 1 / 1000))])
     ''review this'' (ScreeningMetrics_init :: real ScreeningMetrics) []
   = Some (Inr (''YYY the decision overlooks the comparator'', False),
           \<lparr>total_cost = 1 / 1000, total_disagreements = 0, total_processed = 0\<rparr>,
           [''review this'']) \<and>
   total_disagreements \<lparr>total_cost = 1 / 1000 :: real, total_disagreements = 0, total_processed = 0\<rparr>
     \<noteq> total_disagreements (ScreeningMetrics_init :: real ScreeningMetrics) + 1"
proof -
  let ?t = "''YYY the decision overlooks the comparator''"
  have call: "scripted [Inr (Some (?t, 1 / 1000 :: real))] ''review this'' [] =
                (Inr (Some (?t, 1 / 1000)), [''review this''])"
    by (simp add: scripted_def)
  have found: "review_classification_agreement ?t = Some False" by code_simp
  show ?thesis
    using retry_loop_answer [where provider = "scripted [Inr (Some (?t, 1 / 1000 :: real))]"
            and extr = review_classification_agreement
            and m = ScreeningMetrics_init, OF call found]
    by (simp add: review_classification_def add_cost_def ScreeningMetrics_init_def)
qed

text \<open>
  C1 as amended. No tier operation changes \<^verbatim>\<open>total_disagreements\<close>, whatever it returns, so
  the counter keeps its value over every sequence of tier operations; it changes only
  through \<^verbatim>\<open>add_disagreement\<close>, which adds exactly one and which is left to the caller.
\<close>

theorem tier_operations_keep_disagreements:
  fixes gpt4o o3 :: "('c::plus, 'w) provider"
  shows
    "(perform gpt4o o3 operation prompt m w = Some (r, m', w') \<longrightarrow>
        total_disagreements m' = total_disagreements m) \<and>
     (run gpt4o o3 calls m w = Some (results, m'', w'') \<longrightarrow>
        total_disagreements m'' = total_disagreements m) \<and>
     add_disagreement m = m\<lparr>total_disagreements := total_disagreements m + 1\<rparr> \<and>
     total_disagreements (add_disagreement m) = total_disagreements m + 1"
  by (auto simp: add_disagreement_def dest: perform_counters run_counters)

theorem tier_operations_keep_disagreements_witness:
  "run (scripted [Inr (Some (''ZZZ not relevant'', 1 / 1000)),
                  Inr (Some (''YYY the decision overlooks the comparator'', 2 / 1000))])
       (scripted [Inr (Some (''ZZZ not relevant'', 1 / 1000)),
                  Inr (Some (''YYY the decision overlooks the comparator'', 2 / 1000))])
       [(Classify, ''classify this''), (Review_classification, ''review this'')]
       (ScreeningMetrics_init :: real ScreeningMetrics) []
   = Some ([Inr (''ZZZ not relevant'', Decision ''likely irrelevant''),
            Inr (''YYY the decision overlooks the comparator'', Agreement False)],
           \<lparr>total_cost = 3 / 1000, total_disagreements = 0, total_processed = 0\<rparr>,
           [''classify this'', ''review this'']) \<and>
   total_disagreements \<lparr>total_cost = 3 / 1000 :: real, total_disagreements = 0, total_processed = 0\<rparr>
     = total_disagreements (ScreeningMetrics_init :: real ScreeningMetrics)"
proof -
  let ?script = "[Inr (Some (''ZZZ not relevant'', 1 / 1000 :: real)),
                  Inr (Some (''YYY the decision overlooks the comparator'', 2 / 1000))]"
  have call1: "scripted ?script ''classify this'' [] =
                (Inr (Some (''ZZZ not relevant'', 1 / 1000)), [''classify this''])"
    by (simp add: scripted_def)
  have found1: "classify_decision ''ZZZ not relevant'' = Some ''likely irrelevant''" by code_simp
  have call2: "scripted ?script ''review this'' [''classify this''] =
                (Inr (Some (''YYY the decision overlooks the comparator'', 2 / 1000)),
                 [''classify this'', ''review this''])"
    by (simp add: scripted_def)
  have found2: "review_classification_agreement ''YYY the decision overlooks the comparator'' = Some False"
    by code_simp
  have ran: "run (scripted ?script) (scripted ?script)
       [(Classify, ''classify this''), (Review_classification, ''review this'')]
       (ScreeningMetrics_init :: real ScreeningMetrics) []
   = Some ([Inr (''ZZZ not relevant'', Decision ''likely irrelevant''),
            Inr (''YYY the decision overlooks the comparator'', Agreement False)],
           \<lparr>total_cost = 3 / 1000, total_disagreements = 0, total_processed = 0\<rparr>,
           [''classify this'', ''review this''])"
    using retry_loop_answer [where provider = "scripted ?script" and extr = classify_decision
            and m = ScreeningMetrics_init, OF call1 found1]
          retry_loop_answer [where provider = "scripted ?script"
            and extr = review_classification_agreement
            and m = "add_cost ScreeningMetrics_init (1 / 1000)", OF call2 found2]
    by (simp add: classify_def review_classification_def tagged_def
          add_cost_def ScreeningMetrics_init_def)
  from tier_operations_keep_disagreements [THEN conjunct2, THEN conjunct1, rule_format, OF ran] ran
  show ?thesis by simp
qed

section \<open>Claim C2: the processed counter\<close>

text \<open>
  C2 states that every \<^verbatim>\<open>classify\<close> call that returns a decision adds one to
  \<^verbatim>\<open>total_processed\<close>. \<^verbatim>\<open>classify\<close> does not call \<^verbatim>\<open>increment_processed\<close>, and no other tier
  operation does: a \<^verbatim>\<open>classify\<close> that returns a decision leaves the counter at 0.
\<close>

theorem processed_counter_counterexample:
  "classify (scripted [Inr (Some (''XXX relevant to the review question'', 1 / 1000))])
     ''classify this'' (ScreeningMetrics_init :: real ScreeningMetrics) []
   = Some (Inr (''XXX relevant to the review question'', ''potentially relevant''),
           \<lparr>total_cost = 1 / 1000, total_disagreements = 0, total_processed = 0\<rparr>,
           [''classify this'']) \<and>
   total_processed \<lparr>total_cost = 1 / 1000 :: real, total_disagreements = 0, total_processed = 0\<rparr>
     \<noteq> total_processed (ScreeningMetrics_init :: real ScreeningMetrics) + 1"
proof -
  let ?t = "''XXX relevant to the review question''"
  have call: "scripted [Inr (Some (?t, 1 / 1000 :: real))] ''classify this'' [] =
                (Inr (Some (?t, 1 / 1000)), [''classify this''])"
    by (simp add: scripted_def)
  have found: "classify_decision ?t = Some ''potentially relevant''" by code_simp
  show ?thesis
    using retry_loop_answer [where provider = "scripted [Inr (Some (?t, 1 / 1000 :: real))]"
            and extr = classify_decision and m = ScreeningMetrics_init, OF call found]
    by (simp add: classify_def add_cost_def ScreeningMetrics_init_def)
qed

text \<open>
  C2 as amended. No tier operation changes \<^verbatim>\<open>total_processed\<close>, so it keeps its value
  over every sequence of tier operations and is 0 for metrics that only tier operations
  have touched; it changes only through \<^verbatim>\<open>increment_processed\<close>, which adds exactly one and
  which is left to the caller.
\<close>

theorem tier_operations_keep_processed:
  fixes gpt4o o3 :: "('c::{plus,zero}, 'w) provider"
  shows
    "(perform gpt4o o3 operation prompt m w = Some (r, m', w') \<longrightarrow>
        total_processed m' = total_processed m) \<and>
     (run gpt4o o3 calls m w = Some (results, m'', w'') \<longrightarrow>
        total_processed m'' = total_processed m) \<and>
     (run gpt4o o3 calls ScreeningMetrics_init w = Some (results, m'', w'') \<longrightarrow>
        total_processed m'' = 0) \<and>
     increment_processed m = m\<lparr>total_processed := total_processed m + 1\<rparr> \<and>
     total_processed (increment_processed m) = total_processed m + 1"
proof (intro conjI impI)
  assume "perform gpt4o o3 operation prompt m w = Some (r, m', w')"
  then show "total_processed m' = total_processed m" by (rule perform_counters)
next
  assume "run gpt4o o3 calls m w = Some (results, m'', w'')"
  from run_counters [OF this] show "total_processed m'' = total_processed m" by simp
next
  assume "run gpt4o o3 calls ScreeningMetrics_init w = Some (results, m'', w'')"
  from run_counters [OF this] show "total_processed m'' = 0"
    by (simp add: ScreeningMetrics_init_def)
qed (simp_all add: increment_processed_def)

theorem tier_operations_keep_processed_witness:
  "run (scripted [Inr (Some (''unclear'', 1 / 1000)),
                  Inr (Some (''XXX relevant to the review question'', 2 / 1000))])
       (scripted [])
       [(Classify, ''classify this'')]
       (increment_processed (ScreeningMetrics_init :: real ScreeningMetrics)) []
   = Some ([Inr (''XXX relevant to the review question'', Decision ''potentially relevant'')],
           \<lparr>total_cost = 3 / 1000, total_disagreements = 0, total_processed = 1\<rparr>,
           [''classify this'', ''classify this'']) \<and>
   total_processed \<lparr>total_cost = 3 / 1000 :: real, total_disagreements = 0, total_processed = 1\<rparr>
     = total_processed (increment_processed (ScreeningMetrics_init :: real ScreeningMetrics))"
proof -
  let ?script = "[Inr (Some (''unclear'', 1 / 1000 :: real)),
                  Inr (Some (''XXX relevant to the review question'', 2 / 1000))]"
  let ?m = "increment_processed (ScreeningMetrics_init :: real ScreeningMetrics)"
  have call1: "scripted ?script ''classify this'' [] =
                (Inr (Some (''unclear'', 1 / 1000)), [''classify this''])"
    by (simp add: scripted_def)
  have none1: "classify_decision ''unclear'' = None" by code_simp
  have call2: "scripted ?script ''classify this'' [''classify this''] =
                (Inr (Some (''XXX relevant to the review question'', 2 / 1000)),
                 [''classify this'', ''classify this''])"
    by (simp add: scripted_def)
  have found2: "classify_decision ''XXX relevant to the review question'' = Some ''potentially relevant''"
    by code_simp
  have ran: "run (scripted ?script) (scripted [])
       [(Classify, ''classify this'')] ?m []
   = Some ([Inr (''XXX relevant to the review question'', Decision ''potentially relevant'')],
           \<lparr>total_cost = 3 / 1000, total_disagreements = 0, total_processed = 1\<rparr>,
           [''classify this'', ''classify this''])"
    using retry_loop_first_answer [where provider = "scripted ?script" and extr = classify_decision
            and m = ?m, OF call1]
          retry_loop_answer [where provider = "scripted ?script" and extr = classify_decision
            and m = "add_cost ?m (1 / 1000)", OF call2 found2]
    by (simp add: classify_def tagged_def none1
          add_cost_def ScreeningMetrics_init_def increment_processed_def)
  from tier_operations_keep_processed [THEN conjunct2, THEN conjunct1, rule_format, OF ran] ran
  show ?thesis by simp
qed

section \<open>Claim C5: malformed output is retried, never defaulted\<close>

text \<open>
  C5. For every tier operation and every provider response containing zero recognized
  markers, the operation does not return a Decision or Agreement from that response and
  never substitutes a default outcome; it calls the provider again with the same prompt,
  and it returns only when a response containing a recognized marker is seen or the
  provider raises.

  Four facts, for every operation, provider, prompt, metrics and world. A response
  without a recognised marker makes the operation behave as the same operation started
  again with the same prompt, the cost added and the world the call left. When the
  operation comes back, it has made some \<open>k + 1\<close> calls with that prompt, the first \<open>k\<close>
  answers were malformed, and its result is taken from answer \<open>k\<close>: the exception it
  raised, or the text with the outcome of the first marker of the table found in it.
  When some answer is not malformed the operation does come back, after the first such
  answer. When every answer is malformed it never comes back. (An answer \<^verbatim>\<open>None\<close> from
  the provider raises \<^verbatim>\<open>TypeError\<close>.)

  The witness is the scenario of the specification: \<^verbatim>\<open>"unclear"\<close>, then \<^verbatim>\<open>"XXX relevant"\<close>
  gives exactly two provider calls with the same prompt and the decision
  \<^verbatim>\<open>potentially relevant\<close>.
\<close>

theorem malformed_output_is_retried:
  fixes gpt4o o3 :: "('c::plus, 'w) provider"
  shows
    "(provider_of gpt4o o3 operation prompt w = (Inr (Some (t, cost)), w1) \<and>
        \<not> recognised operation t \<longrightarrow>
        perform gpt4o o3 operation prompt m w =
        perform gpt4o o3 operation prompt (add_cost m cost) w1) \<and>
     (perform gpt4o o3 operation prompt m w = Some (result, m', w') \<longrightarrow>
        (\<exists>k. (\<forall>i<k. malformed operation (response (provider_of gpt4o o3 operation) prompt i w)) \<and>
             \<not> malformed operation (response (provider_of gpt4o o3 operation) prompt k w) \<and>
             w' = world_after (provider_of gpt4o o3 operation) prompt (Suc k) w \<and>
             (case result of
                Inl e \<Rightarrow>
                  response (provider_of gpt4o o3 operation) prompt k w = Inl e \<or>
                  response (provider_of gpt4o o3 operation) prompt k w = Inr None \<and> e = TypeError
              | Inr (answer, outcome) \<Rightarrow>
                  (\<exists>c. response (provider_of gpt4o o3 operation) prompt k w = Inr (Some (answer, c))) \<and>
                  recognised operation answer \<and>
                  first_marker (marker_table operation) answer = Some outcome))) \<and>
     ((\<forall>i<n. malformed operation (response (provider_of gpt4o o3 operation) prompt i w)) \<and>
        \<not> malformed operation (response (provider_of gpt4o o3 operation) prompt n w) \<longrightarrow>
        (\<exists>v. perform gpt4o o3 operation prompt m w =
               Some (v, charged (provider_of gpt4o o3 operation) prompt (Suc n) m w,
                     world_after (provider_of gpt4o o3 operation) prompt (Suc n) w))) \<and>
     ((\<forall>i. malformed operation (response (provider_of gpt4o o3 operation) prompt i w)) \<longrightarrow>
        perform gpt4o o3 operation prompt m w = None)"
proof (intro conjI impI)
  assume "provider_of gpt4o o3 operation prompt w = (Inr (Some (t, cost)), w1) \<and>
        \<not> recognised operation t"
  then show "perform gpt4o o3 operation prompt m w =
        perform gpt4o o3 operation prompt (add_cost m cost) w1"
    by (simp add: perform_retry_step)
next
  let ?P = "provider_of gpt4o o3 operation"
  assume "perform gpt4o o3 operation prompt m w = Some (result, m', w')"
  from perform_returned [OF this] obtain k v where
    k: "\<forall>i<k. malformed operation (response ?P prompt i w)"
       "verdict (first_marker (marker_table operation)) (response ?P prompt k w) = Some v"
       "(result, m', w') = (v, charged ?P prompt (Suc k) m w, world_after ?P prompt (Suc k) w)"
    by blast
  from k(2) have nm: "\<not> malformed operation (response ?P prompt k w)"
    by (simp add: verdict_None_iff_malformed [symmetric])
  have "case result of
          Inl e \<Rightarrow> response ?P prompt k w = Inl e \<or> response ?P prompt k w = Inr None \<and> e = TypeError
        | Inr (answer, outcome) \<Rightarrow>
            (\<exists>c. response ?P prompt k w = Inr (Some (answer, c))) \<and>
            recognised operation answer \<and>
            first_marker (marker_table operation) answer = Some outcome"
    using k(2) k(3) nm
    by (auto simp: verdict_def malformed_def split: sum.splits option.splits)
  with k(1) nm k(3) show "\<exists>k. (\<forall>i<k. malformed operation (response ?P prompt i w)) \<and>
             \<not> malformed operation (response ?P prompt k w) \<and>
             w' = world_after ?P prompt (Suc k) w \<and>
             (case result of
                Inl e \<Rightarrow>
                  response ?P prompt k w = Inl e \<or>
                  response ?P prompt k w = Inr None \<and> e = TypeError
              | Inr (answer, outcome) \<Rightarrow>
                  (\<exists>c. response ?P prompt k w = Inr (Some (answer, c))) \<and>
                  recognised operation answer \<and>
                  first_marker (marker_table operation) answer = Some outcome)"
    by blast
next
  let ?P = "provider_of gpt4o o3 operation"
  assume a: "(\<forall>i<n. malformed operation (response ?P prompt i w)) \<and>
        \<not> malformed operation (response ?P prompt n w)"
  then obtain v where "verdict (first_marker (marker_table operation)) (response ?P prompt n w) = Some v"
    by (auto simp: verdict_None_iff_malformed [symmetric])
  from perform_returns [OF conjunct1 [OF a] this, of m]
  show "\<exists>v. perform gpt4o o3 operation prompt m w =
               Some (v, charged ?P prompt (Suc n) m w, world_after ?P prompt (Suc n) w)"
    by blast
next
  let ?P = "provider_of gpt4o o3 operation"
  assume all: "\<forall>i. malformed operation (response ?P prompt i w)"
  show "perform gpt4o o3 operation prompt m w = None"
  proof (rule ccontr)
    assume "perform gpt4o o3 operation prompt m w \<noteq> None"
    then obtain out where "perform gpt4o o3 operation prompt m w = Some out" by auto
    from perform_returned [OF this] obtain k v where
      "verdict (first_marker (marker_table operation)) (response ?P prompt k w) = Some v"
      by blast
    with all show False by (simp add: verdict_None_iff_malformed [symmetric])
  qed
qed

theorem malformed_output_is_retried_witness:
  "perform (scripted [Inr (Some (''unclear'', 1 / 1000)), Inr (Some (''XXX relevant'', 2 / 1000))])
           (scripted []) Classify ''classify this'' (ScreeningMetrics_init :: real ScreeningMetrics) []
   = Some (Inr (''XXX relevant'', Decision ''potentially relevant''),
           \<lparr>total_cost = 3 / 1000, total_disagreements = 0, total_processed = 0\<rparr>,
           [''classify this'', ''classify this''])"
proof -
  let ?g = "scripted [Inr (Some (''unclear'', 1 / 1000 :: real)), Inr (Some (''XXX relevant'', 2 / 1000))]"
  have first: "provider_of ?g (scripted []) Classify ''classify this'' [] =
                 (Inr (Some (''unclear'', 1 / 1000)), [''classify this''])"
    by (simp add: scripted_def)
  have bad: "\<not> recognised Classify ''unclear''"
    by (simp add: recognised_def lower_def)
  have second: "perform ?g (scripted []) Classify ''classify this''
                  (add_cost ScreeningMetrics_init (1 / 1000)) [''classify this'']
     = Some (Inr (''XXX relevant'', Decision ''potentially relevant''),
           \<lparr>total_cost = 3 / 1000, total_disagreements = 0, total_processed = 0\<rparr>,
           [''classify this'', ''classify this''])"
    using retry_loop_answer [of ?g "''classify this''" "[''classify this'']" "''XXX relevant''"
            "2 / 1000" "[''classify this'', ''classify this'']" classify_decision
            "''potentially relevant''" "add_cost ScreeningMetrics_init (1 / 1000)"]
    by (simp add: classify_def tagged_def scripted_def classify_decision_def add_cost_def
          ScreeningMetrics_init_def lower_def)
  from malformed_output_is_retried [of ?g "scripted []" Classify "''classify this''" "[]"
        "''unclear''" "1 / 1000" "[''classify this'']" ScreeningMetrics_init]
       first bad second
  show ?thesis by simp
qed

section \<open>Claim C7: a provider failure is re-raised, retries are the transport's\<close>

text \<open>
  C7. For every tier operation, if the completion provider invocation raises an
  exception, the operation re-raises that failure to its caller without making further
  provider calls and without producing a Decision or Agreement; bounded retries with delay
  happen only at the transport layer below.

  When call number \<open>k\<close> of an operation raises \<open>e\<close> (the earlier answers being malformed),
  the operation raises \<open>e\<close> and the world is the one that call left: it was the last
  call. \<^verbatim>\<open>_make_api_call\<close> sends one request at most \<^verbatim>\<open>max_retries\<close> times, with one sleep of
  \<^verbatim>\<open>retry_delay\<close> between two attempts; when every attempt fails it has sent the request
  \<^verbatim>\<open>max_retries\<close> times, slept between them and raises the last failure. With the real
  \<^verbatim>\<open>gpt_4o_mini\<close> and \<^verbatim>\<open>gpt_o3_mini\<close> as providers, an operation whose call raises has sent at
  most \<^verbatim>\<open>max_retries\<close> requests.
\<close>

theorem provider_failure_is_reraised:
  fixes gpt4o o3 :: "('c::plus, 'w) provider"
  shows
    "((\<forall>i<k. malformed operation (response (provider_of gpt4o o3 operation) prompt i w)) \<and>
        response (provider_of gpt4o o3 operation) prompt k w = Inl e \<longrightarrow>
        perform gpt4o o3 operation prompt m w =
          Some (Inl e, charged (provider_of gpt4o o3 operation) prompt k m w,
                world_after (provider_of gpt4o o3 operation) prompt (Suc k) w)) \<and>
     (make_api_call config api model_name msgs system_message tw = (r, tw') \<longrightarrow>
        (\<exists>n req. n \<le> nat (max_retries (llm config)) \<and>
             requests tw' = requests tw @ replicate n req \<and>
             sleeps tw' = sleeps tw @ replicate (n - 1) (retry_delay (llm config)))) \<and>
     ((\<forall>i<nat (max_retries (llm config)). api (length (requests tw) + i) req = Inl (failure i)) \<and>
        0 < max_retries (llm config) \<and> 0 \<le> retry_delay (llm config) \<longrightarrow>
        attempts config api req [0..<nat (max_retries (llm config))] tw =
          (Inl (failure (nat (max_retries (llm config)) - 1)),
           tw\<lparr>requests := requests tw @ replicate (nat (max_retries (llm config))) req,
              sleeps := sleeps tw @ replicate (nat (max_retries (llm config)) - 1)
                                      (retry_delay (llm config))\<rparr>)) \<and>
     (provider_of (gpt_4o_mini config api) (gpt_o3_mini config api) operation prompt tw = (Inl e, tw') \<longrightarrow>
        perform (gpt_4o_mini config api) (gpt_o3_mini config api) operation prompt tm tw =
          Some (Inl e, tm, tw') \<and>
        length (requests tw') \<le> length (requests tw) + nat (max_retries (llm config)))"
proof (intro conjI impI)
  assume a: "(\<forall>i<k. malformed operation (response (provider_of gpt4o o3 operation) prompt i w)) \<and>
        response (provider_of gpt4o o3 operation) prompt k w = Inl e"
  from perform_raises [OF conjunct1 [OF a] conjunct2 [OF a]]
  show "perform gpt4o o3 operation prompt m w =
          Some (Inl e, charged (provider_of gpt4o o3 operation) prompt k m w,
                world_after (provider_of gpt4o o3 operation) prompt (Suc k) w)" .
next
  assume "make_api_call config api model_name msgs system_message tw = (r, tw')"
  then show "\<exists>n req. n \<le> nat (max_retries (llm config)) \<and>
             requests tw' = requests tw @ replicate n req \<and>
             sleeps tw' = sleeps tw @ replicate (n - 1) (retry_delay (llm config))"
    by (rule make_api_call_bounded)
next
  assume a: "(\<forall>i<nat (max_retries (llm config)). api (length (requests tw) + i) req = Inl (failure i)) \<and>
        0 < max_retries (llm config) \<and> 0 \<le> retry_delay (llm config)"
  then have "\<forall>i. 0 \<le> i \<and> i < nat (max_retries (llm config)) \<longrightarrow>
               try_body config api req (length (requests tw) + (i - 0)) = Inl (failure i)"
    by (simp add: try_body_raises)
  from attempts_all_fail [where a = 0 and e = failure and api = api and config = config
         and w = tw and req = req, OF this] a
  show "attempts config api req [0..<nat (max_retries (llm config))] tw =
          (Inl (failure (nat (max_retries (llm config)) - 1)),
           tw\<lparr>requests := requests tw @ replicate (nat (max_retries (llm config))) req,
              sleeps := sleeps tw @ replicate (nat (max_retries (llm config)) - 1)
                                      (retry_delay (llm config))\<rparr>)"
    by simp
next
  let ?P = "provider_of (gpt_4o_mini config api) (gpt_o3_mini config api) operation"
  assume call: "?P prompt tw = (Inl e, tw')"
  then have "response ?P prompt 0 tw = Inl e" by (simp add: response_0)
  then have "perform (gpt_4o_mini config api) (gpt_o3_mini config api) operation prompt tm tw =
          Some (Inl e, charged ?P prompt 0 tm tw, world_after ?P prompt (Suc 0) tw)"
    by (intro perform_raises) simp_all
  with call show "perform (gpt_4o_mini config api) (gpt_o3_mini config api) operation prompt tm tw =
          Some (Inl e, tm, tw')"
    by (simp add: charged_0)
next
  assume "provider_of (gpt_4o_mini config api) (gpt_o3_mini config api) operation prompt tw = (Inl e, tw')"
  from gpt_calls_bounded [OF this]
  show "length (requests tw') \<le> length (requests tw) + nat (max_retries (llm config))"
    by auto
qed

theorem provider_failure_is_reraised_witness:
  "perform (gpt_4o_mini (AppConfig_default ''sk-test'') (\<lambda>n req. Inl (Exception ''timed out'')))
           (gpt_o3_mini (AppConfig_default ''sk-test'') (\<lambda>n req. Inl (Exception ''timed out'')))
           Classify ''classify this'' ScreeningMetrics_init \<lparr>requests = [], sleeps = []\<rparr>
   = Some (Inl (Exception ''timed out''), ScreeningMetrics_init,
           \<lparr>requests = replicate 3 \<lparr>model = ''gpt-4o-mini'', messages = [(''user'', ''classify this'')],
                                   request_timeout = 20\<rparr>,
            sleeps = [10, 10]\<rparr>)"
proof -
  let ?config = "AppConfig_default ''sk-test''"
  let ?api = "\<lambda>(n::nat) (req::request). (Inl (Exception ''timed out'') :: py_exception + ChatCompletion)"
  have call: "provider_of (gpt_4o_mini ?config ?api) (gpt_o3_mini ?config ?api) Classify
                ''classify this'' \<lparr>requests = [], sleeps = []\<rparr>
              = (Inl (Exception ''timed out''),
                 \<lparr>requests = replicate 3 \<lparr>model = ''gpt-4o-mini'',
                      messages = [(''user'', ''classify this'')], request_timeout = 20\<rparr>,
                  sleeps = [10, 10]\<rparr>)"
    by (simp add: gpt_4o_mini_def call_gpt_4o_mini_def make_api_call_def AppConfig_default_def
          try_body_def upt_conv_Cons numeral_3_eq_3 Let_def)
  from provider_failure_is_reraised
         [THEN conjunct2, THEN conjunct2, THEN conjunct2, rule_format, OF call, THEN conjunct1]
  show ?thesis .
qed

section \<open>Claim C9: a failed call adds nothing to the metrics\<close>

text \<open>
  C9. For every tier operation, if the provider invocation raises, the tier's Metrics
  are exactly what they were before that operation's failing attempt.

  An operation whose first call raises returns the metrics it was given. After \<open>k\<close>
  malformed answers the operation is in the state \<open>charged \<dots> k\<close>, and when call \<open>k\<close> raises
  it ends with exactly these metrics: the two counters are those of the start and the
  total cost is the start's plus the costs of the \<open>k\<close> calls that returned.
\<close>

theorem failed_call_leaves_metrics:
  fixes gpt4o o3 :: "('c::plus, 'w) provider"
  shows
    "(provider_of gpt4o o3 operation prompt w = (Inl e, w') \<longrightarrow>
        perform gpt4o o3 operation prompt m w = Some (Inl e, m, w')) \<and>
     ((\<forall>i<k. malformed operation (response (provider_of gpt4o o3 operation) prompt i w)) \<longrightarrow>
        perform gpt4o o3 operation prompt m w =
        perform gpt4o o3 operation prompt
          (charged (provider_of gpt4o o3 operation) prompt k m w)
          (world_after (provider_of gpt4o o3 operation) prompt k w)) \<and>
     ((\<forall>i<k. malformed operation (response (provider_of gpt4o o3 operation) prompt i w)) \<and>
        response (provider_of gpt4o o3 operation) prompt k w = Inl e \<longrightarrow>
        (\<exists>w''. perform gpt4o o3 operation prompt m w =
                 Some (Inl e, charged (provider_of gpt4o o3 operation) prompt k m w, w'')) \<and>
        total_disagreements (charged (provider_of gpt4o o3 operation) prompt k m w) =
          total_disagreements m \<and>
        total_processed (charged (provider_of gpt4o o3 operation) prompt k m w) =
          total_processed m \<and>
        total_cost (charged (provider_of gpt4o o3 operation) prompt k m w) =
          foldl (+) (total_cost m)
            (paid (map (\<lambda>i. response (provider_of gpt4o o3 operation) prompt i w) [0..<k])))"
proof (intro conjI impI)
  let ?P = "provider_of gpt4o o3 operation"
  assume call: "?P prompt w = (Inl e, w')"
  then have "response ?P prompt 0 w = Inl e" by (simp add: response_0)
  then have "perform gpt4o o3 operation prompt m w =
          Some (Inl e, charged ?P prompt 0 m w, world_after ?P prompt (Suc 0) w)"
    by (intro perform_raises) simp_all
  with call show "perform gpt4o o3 operation prompt m w = Some (Inl e, m, w')"
    by (simp add: charged_0)
next
  assume "\<forall>i<k. malformed operation (response (provider_of gpt4o o3 operation) prompt i w)"
  then show "perform gpt4o o3 operation prompt m w =
        perform gpt4o o3 operation prompt
          (charged (provider_of gpt4o o3 operation) prompt k m w)
          (world_after (provider_of gpt4o o3 operation) prompt k w)"
    by (rule perform_resumes)
next
  assume a: "(\<forall>i<k. malformed operation (response (provider_of gpt4o o3 operation) prompt i w)) \<and>
        response (provider_of gpt4o o3 operation) prompt k w = Inl e"
  from perform_raises [OF conjunct1 [OF a] conjunct2 [OF a]]
  show "\<exists>w''. perform gpt4o o3 operation prompt m w =
                 Some (Inl e, charged (provider_of gpt4o o3 operation) prompt k m w, w'')"
    by blast
next
  show "total_disagreements (charged (provider_of gpt4o o3 operation) prompt k m w) =
          total_disagreements m"
    by (rule charged_counters)
next
  show "total_processed (charged (provider_of gpt4o o3 operation) prompt k m w) =
          total_processed m"
    by (rule charged_counters)
next
  show "total_cost (charged (provider_of gpt4o o3 operation) prompt k m w) =
          foldl (+) (total_cost m)
            (paid (map (\<lambda>i. response (provider_of gpt4o o3 operation) prompt i w) [0..<k]))"
    by (rule total_cost_charged)
qed

theorem failed_call_leaves_metrics_witness:
  "perform (scripted []) (scripted [Inl (Exception ''connection reset'')])
           Review_screening ''review this''
           \<lparr>total_cost = 7 / 1000 :: real, total_disagreements = 2, total_processed = 5\<rparr> []
   = Some (Inl (Exception ''connection reset''),
           \<lparr>total_cost = 7 / 1000, total_disagreements = 2, total_processed = 5\<rparr>,
           [''review this''])"
proof -
  have call: "provider_of (scripted []) (scripted [Inl (Exception ''connection reset'')])
                Review_screening ''review this'' ([] :: string list)
              = (Inl (Exception ''connection reset'') :: py_exception + (string \<times> real) option,
                 [''review this''])"
    by (simp add: scripted_def)
  from failed_call_leaves_metrics [THEN conjunct1, rule_format, OF call]
  show ?thesis .
qed

section \<open>Claim C8: a model without a price\<close>

text \<open>
  C8. For every successful provider call whose model name has no entry in the
  configured pricing table, the computed cost of that call is exactly 0 and no exception
  is raised; the call still returns its response text normally.

  \<^verbatim>\<open>_calculate_cost\<close> reads the token counts of \<^verbatim>\<open>response.usage\<close> before it looks the model
  up in the pricing table. A completion that the provider returned without usage
  therefore makes it raise \<^verbatim>\<open>AttributeError\<close>, priced model or not; the \<^verbatim>\<open>try\<close> of
  \<^verbatim>\<open>_make_api_call\<close> takes that for a failed attempt. With the default configuration and a
  model it has no price for, a provider that answers every request without usage is
  asked three times, with two sleeps, and the call raises \<^verbatim>\<open>AttributeError\<close>: the provider
  call succeeded, no cost was computed, an exception was raised and no text was returned.
\<close>

theorem missing_pricing_without_usage_raises:
  "map_of (pricing (llm (AppConfig_default ''sk-test''))) ''gpt-4.1'' = None \<and>
   calculate_cost (AppConfig_default ''sk-test'')
     \<lparr>content = ''XXX relevant'', usage = None\<rparr> ''gpt-4.1'' = Inl AttributeError \<and>
   make_api_call (AppConfig_default ''sk-test'')
     (\<lambda>n req. Inr \<lparr>content = ''XXX relevant'', usage = None\<rparr>)
     ''gpt-4.1'' (Str ''prompt'') None \<lparr>requests = [], sleeps = []\<rparr>
   = (Inl AttributeError,
      \<lparr>requests = replicate 3 \<lparr>model = ''gpt-4.1'', messages = [(''user'', ''prompt'')],
                              request_timeout = 20\<rparr>,
       sleeps = [10, 10]\<rparr>)"
  by (simp add: make_api_call_def calculate_cost_def try_body_def dict_get_def
        AppConfig_default_def upt_conv_Cons numeral_3_eq_3 Let_def)

text \<open>
  C8, amended. For every successful provider call whose completion carries its token
  usage and whose model name has no entry in the configured pricing table, the computed
  cost of that call is exactly 0 and no exception is raised; the call still returns its
  response text normally.

  For a model that the pricing table does not list: \<^verbatim>\<open>_calculate_cost\<close> returns 0 for every
  completion that carries usage, whatever the token counts. When the body of the \<^verbatim>\<open>try\<close>
  failed at the first \<open>j\<close> attempts of \<^verbatim>\<open>_make_api_call\<close>, attempt \<open>j\<close> is within
  \<^verbatim>\<open>max_retries\<close> and the provider answers it with a completion that carries usage, the
  call returns the content of that completion with cost 0, having sent the request
  \<open>j + 1\<close> times and slept \<open>j\<close> times (\<^verbatim>\<open>time.sleep\<close> needs a delay that is not negative);
  for \<open>j = 0\<close> this is the call whose first request is answered. Conversely, whenever the
  call returns a pair, the cost in it is 0 and the text is the content of the completion
  that answered its last request, which carried usage.
\<close>

theorem missing_pricing_costs_zero:
  assumes "map_of (pricing (llm config)) model_name = None"
  shows "(usage completion = Some u \<longrightarrow> calculate_cost config completion model_name = Inr 0) \<and>
         ((\<forall>i<j. \<exists>e. try_body config api (request_sent config model_name msgs system_message)
                        (length (requests w) + i) = Inl e) \<and>
          api (length (requests w) + j) (request_sent config model_name msgs system_message)
            = Inr completion \<and>
          usage completion = Some u \<and>
          j < nat (max_retries (llm config)) \<and> (0 < j \<longrightarrow> 0 \<le> retry_delay (llm config)) \<longrightarrow>
            make_api_call config api model_name msgs system_message w =
              (Inr (Some (content completion, 0)),
               w\<lparr>requests := requests w @
                    replicate (Suc j) (request_sent config model_name msgs system_message),
                 sleeps := sleeps w @ replicate j (retry_delay (llm config))\<rparr>)) \<and>
         (make_api_call config api model_name msgs system_message w = (Inr (Some (t, c)), w') \<longrightarrow>
            c = 0 \<and> requests w' \<noteq> [] \<and>
            (\<exists>answer u'. api (length (requests w') - 1) (last (requests w')) = Inr answer \<and>
                 usage answer = Some u' \<and> t = content answer))"
proof (intro conjI impI)
  assume "usage completion = Some u"
  with assms show "calculate_cost config completion model_name = Inr 0"
    by (simp add: calculate_cost_unpriced)
next
  let ?req = "request_sent config model_name msgs system_message"
  assume a: "(\<forall>i<j. \<exists>e. try_body config api ?req (length (requests w) + i) = Inl e) \<and>
          api (length (requests w) + j) ?req = Inr completion \<and>
          usage completion = Some u \<and>
          j < nat (max_retries (llm config)) \<and> (0 < j \<longrightarrow> 0 \<le> retry_delay (llm config))"
  then have cost: "calculate_cost config completion (model ?req) = Inr 0"
    using assms by (simp add: calculate_cost_unpriced)
  with a have answered:
    "try_body config api ?req (length (requests w) + j) = Inr (content completion, 0)"
    by (simp add: try_body_returns)
  from a have before: "\<forall>i<j. \<exists>e. try_body config api ?req (length (requests w) + i) = Inl e"
    and within: "0 + j < nat (max_retries (llm config))"
    and delay: "0 < j \<longrightarrow> 0 \<le> retry_delay (llm config)"
    by simp_all
  from attempts_first_return [OF before answered within delay]
  show "make_api_call config api model_name msgs system_message w =
              (Inr (Some (content completion, 0)),
               w\<lparr>requests := requests w @ replicate (Suc j) ?req,
                 sleeps := sleeps w @ replicate j (retry_delay (llm config))\<rparr>)"
    by (simp only: make_api_call_attempts)
next
  let ?req = "request_sent config model_name msgs system_message"
  assume call: "make_api_call config api model_name msgs system_message w = (Inr (Some (t, c)), w')"
  then have "attempts config api ?req [0..<nat (max_retries (llm config))] w
               = (Inr (Some (t, c)), w')"
    by (simp only: make_api_call_attempts)
  from attempts_success [OF this] have
    s: "requests w' \<noteq> []" "last (requests w') = ?req"
       "try_body config api ?req (length (requests w') - 1) = Inr (t, c)"
    by simp_all
  from s(3) obtain answer where
    answer: "api (length (requests w') - 1) ?req = Inr answer" "t = content answer"
            "calculate_cost config answer (model ?req) = Inr c"
    unfolding try_body_returns by blast
  from answer(3) assms have priced: "usage answer \<noteq> None \<and> c = 0"
    by (auto simp: calculate_cost_unpriced split: option.splits)
  then obtain u' where u': "usage answer = Some u'" by auto
  from priced show "c = 0" by simp
  from s show "requests w' \<noteq> []" by simp
  from s(2) answer u'
  show "\<exists>answer u'. api (length (requests w') - 1) (last (requests w')) = Inr answer \<and>
                 usage answer = Some u' \<and> t = content answer"
    by auto
qed

theorem missing_pricing_costs_zero_witness:
  "map_of (pricing (llm (AppConfig_default ''sk-test''))) ''gpt-4.1'' = None \<and>
   calculate_cost (AppConfig_default ''sk-test'')
     \<lparr>content = ''XXX relevant'',
      usage = Some \<lparr>prompt_tokens = 120, completion_tokens = 30\<rparr>\<rparr> ''gpt-4.1'' = Inr 0 \<and>
   make_api_call (AppConfig_default ''sk-test'')
     (\<lambda>n req. if n = 0 then Inl (Exception ''timed out'')
               else Inr \<lparr>content = ''XXX relevant'',
                         usage = Some \<lparr>prompt_tokens = 120, completion_tokens = 30\<rparr>\<rparr>)
     ''gpt-4.1'' (Str ''prompt'') None \<lparr>requests = [], sleeps = []\<rparr>
   = (Inr (Some (''XXX relevant'', 0)),
      \<lparr>requests = replicate 2 \<lparr>model = ''gpt-4.1'', messages = [(''user'', ''prompt'')],
                              request_timeout = 20\<rparr>,
       sleeps = [10]\<rparr>)"
proof -
  let ?config = "AppConfig_default ''sk-test''"
  let ?completion = "\<lparr>content = ''XXX relevant'',
                      usage = Some \<lparr>prompt_tokens = 120, completion_tokens = 30\<rparr>\<rparr>"
  let ?api = "\<lambda>(n::nat) (req::request).
                if n = 0 then Inl (Exception ''timed out'') else Inr ?completion"
  let ?w = "\<lparr>requests = [], sleeps = []\<rparr>"
  have unpriced: "map_of (pricing (llm ?config)) ''gpt-4.1'' = None"
    by (simp add: AppConfig_default_def)
  have run: "(\<forall>i<1. \<exists>e. try_body ?config ?api (request_sent ?config ''gpt-4.1'' (Str ''prompt'') None)
                        (length (requests ?w) + i) = Inl e) \<and>
          ?api (length (requests ?w) + 1) (request_sent ?config ''gpt-4.1'' (Str ''prompt'') None)
            = Inr ?completion \<and>
          usage ?completion = Some \<lparr>prompt_tokens = 120, completion_tokens = 30\<rparr> \<and>
          1 < nat (max_retries (llm ?config)) \<and> (0 < (1::nat) \<longrightarrow> 0 \<le> retry_delay (llm ?config))"
    by (simp add: try_body_def AppConfig_default_def)
  have sent: "request_sent ?config ''gpt-4.1'' (Str ''prompt'') None =
                \<lparr>model = ''gpt-4.1'', messages = [(''user'', ''prompt'')], request_timeout = 20\<rparr>"
    by (simp add: request_sent_def AppConfig_default_def)
  have delay: "retry_delay (llm ?config) = 10"
    by (simp add: AppConfig_default_def)
  from missing_pricing_costs_zero [OF unpriced, where completion = ?completion
         and u = "\<lparr>prompt_tokens = 120, completion_tokens = 30\<rparr>", THEN conjunct1]
  have cost: "calculate_cost ?config ?completion ''gpt-4.1'' = Inr 0"
    by simp
  from missing_pricing_costs_zero [OF unpriced, where completion = ?completion
         and u = "\<lparr>prompt_tokens = 120, completion_tokens = 30\<rparr>" and j = 1 and api = ?api
         and w = ?w and msgs = "Str ''prompt''" and system_message = None,
         THEN conjunct2, THEN conjunct1, rule_format, OF run]
  have "make_api_call ?config ?api ''gpt-4.1'' (Str ''prompt'') None ?w =
          (Inr (Some (''XXX relevant'', 0)),
           \<lparr>requests = replicate 2 \<lparr>model = ''gpt-4.1'', messages = [(''user'', ''prompt'')],
                              request_timeout = 20\<rparr>,
            sleeps = [10]\<rparr>)"
    by (simp add: sent delay numeral_2_eq_2)
  with unpriced cost show ?thesis by simp
qed

section \<open>Claim C10: the guarded average of get_summary\<close>

text \<open>
  C10. For every Metrics state, reachable or not, \<^verbatim>\<open>get_summary\<close> returns a summary
  without error whose \<^verbatim>\<open>avg_cost_per_article\<close> is \<^verbatim>\<open>total_cost\<close> divided by
  \<^verbatim>\<open>max(total_processed, 1)\<close>; the divisor is never zero, and when \<^verbatim>\<open>total_processed\<close> is 0
  the average is \<^verbatim>\<open>total_cost\<close> itself. Division is the division of the reals.
\<close>

theorem get_summary_average:
  "get_summary self =
     Inr [(''total_cost'', PyFloat (total_cost self)),
          (''total_disagreements'', PyInt (total_disagreements self)),
          (''total_processed'', PyInt (total_processed self)),
          (''avg_cost_per_article'',
             PyFloat (total_cost self / real_of_int (max (total_processed self) 1)))] \<and>
   max (total_processed self) 1 \<noteq> 0 \<and>
   (total_processed self = 0 \<longrightarrow>
      get_summary self =
        Inr [(''total_cost'', PyFloat (total_cost self)),
             (''total_disagreements'', PyInt (total_disagreements self)),
             (''total_processed'', PyInt 0),
             (''avg_cost_per_article'', PyFloat (total_cost self))])"
  by (simp add: get_summary_def truediv_def max_def)

theorem get_summary_average_witness:
  "total_processed (add_cost ScreeningMetrics_init (3 / 1000)) = 0 \<and>
   get_summary (add_cost ScreeningMetrics_init (3 / 1000)) =
     Inr [(''total_cost'', PyFloat (3 / 1000)), (''total_disagreements'', PyInt 0),
          (''total_processed'', PyInt 0), (''avg_cost_per_article'', PyFloat (3 / 1000))] \<and>
   get_summary (increment_processed (increment_processed (add_cost ScreeningMetrics_init 3))) =
     Inr [(''total_cost'', PyFloat 3), (''total_disagreements'', PyInt 0),
          (''total_processed'', PyInt 2), (''avg_cost_per_article'', PyFloat (3 / 2))]"
  using get_summary_average [of "add_cost ScreeningMetrics_init (3 / 1000)"]
        get_summary_average [of "increment_processed (increment_processed (add_cost ScreeningMetrics_init 3))"]
  by (simp add: add_cost_def ScreeningMetrics_init_def increment_processed_def)

section \<open>Rounded addition\<close>

text \<open>
  Adding a float that is not negative to a binary64 number gives a binary64 number that
  is not smaller: rounding to nearest never goes below a representable number that the
  exact sum has reached.
\<close>

lemma bits_upper: "n < 2 ^ bits n"
proof (induction n rule: bits.induct)
  case (1 n)
  show ?case
  proof (cases "n = 0")
    case True
    then show ?thesis by (simp add: bits.simps)
  next
    case False
    with 1 have "n div 2 < 2 ^ bits (n div 2)" by simp
    then have "n < 2 * 2 ^ bits (n div 2)" by linarith
    with False show ?thesis by (subst bits.simps) simp
  qed
qed

lemma bits_lower: "0 < n \<Longrightarrow> 2 ^ (bits n - 1) \<le> n"
proof (induction n rule: bits.induct)
  case (1 n)
  show ?case
  proof (cases "n div 2 = 0")
    case True
    with "1.prems" have "bits n = 1" by (simp add: bits.simps [of n] bits.simps [of 0])
    with "1.prems" show ?thesis by simp
  next
    case False
    with 1 have ih: "2 ^ (bits (n div 2) - 1) \<le> n div 2" by simp
    from False have pos: "0 < bits (n div 2)" by (subst bits.simps) simp
    from "1.prems" have b: "bits n = Suc (bits (n div 2))" by (subst bits.simps) simp
    from pos have "(2::nat) ^ bits (n div 2) = 2 * 2 ^ (bits (n div 2) - 1)"
      by (cases "bits (n div 2)") simp_all
    with ih have "2 ^ bits (n div 2) \<le> 2 * (n div 2)" by simp
    also have "\<dots> \<le> n" by simp
    finally show ?thesis by (simp add: b)
  qed
qed

lemma precision_pos: "0 < precision"
  by (simp add: precision_def)

lemma precision_double: "(2::nat) ^ precision = 2 ^ (precision - 1) * 2"
proof -
  from precision_pos obtain n where n: "precision = Suc n" by (cases precision) simp_all
  show ?thesis unfolding n by simp
qed

lemma half_precision_fits: "(2::nat) ^ (precision - 1) < 2 ^ precision"
  using precision_pos by (intro power_strict_increasing) simp_all

lemma floor_multiple_ge:
  assumes "a < 2 ^ precision" and "a * 2 ^ j \<le> s"
  shows "a * 2 ^ j \<le> (s div 2 ^ (bits s - precision)) * 2 ^ (bits s - precision)"
proof -
  let ?k = "bits s - precision"
  show ?thesis
  proof (cases "?k \<le> j")
    case True
    then obtain d where j: "j = ?k + d" using le_Suc_ex by blast
    have "a * 2 ^ d * 2 ^ ?k \<le> s" using assms(2) by (simp add: j power_add mult.assoc mult.commute)
    then have "a * 2 ^ d \<le> s div 2 ^ ?k" by (simp add: less_eq_div_iff_mult_less_eq)
    then have "a * 2 ^ d * 2 ^ ?k \<le> (s div 2 ^ ?k) * 2 ^ ?k" by (rule mult_le_mono1)
    then show ?thesis by (simp add: j power_add mult.assoc mult.commute)
  next
    case False
    then have kj: "j < ?k" by simp
    then have big: "precision < bits s" by simp
    then have spos: "0 < s" by (cases "s = 0") (simp_all add: bits.simps)
    have "a * 2 ^ j < 2 ^ precision * 2 ^ j" using assms(1) by simp
    also have "\<dots> = 2 ^ (precision + j)" by (simp add: power_add)
    also have "\<dots> \<le> 2 ^ (precision - 1 + ?k)" using kj by (intro power_increasing) simp_all
    finally have a: "a * 2 ^ j < 2 ^ (precision - 1 + ?k)" .
    from big precision_pos have "precision - 1 + ?k = bits s - 1" by simp
    with bits_lower [OF spos] have "2 ^ (precision - 1 + ?k) \<le> s" by simp
    then have "2 ^ (precision - 1) * 2 ^ ?k \<le> s" by (simp only: power_add)
    then have "2 ^ (precision - 1) \<le> s div 2 ^ ?k" by (simp add: less_eq_div_iff_mult_less_eq)
    then have "2 ^ (precision - 1) * 2 ^ ?k \<le> (s div 2 ^ ?k) * 2 ^ ?k" by (rule mult_le_mono1)
    with a show ?thesis by (simp only: power_add)
  qed
qed

lemma round_double_Finite:
  assumes "round_double s e = Finite m e'"
  shows "m < 2 ^ precision \<and> (\<exists>k. e' = e + int k \<and> (s div 2 ^ (bits s - precision)) * 2 ^ (bits s - precision) \<le> m * 2 ^ k)"
proof -
  let ?k = "bits s - precision"
  let ?q = "s div 2 ^ ?k"
  let ?r = "s mod 2 ^ ?k"
  let ?q' = "if 0 < ?k \<and> (2 ^ (?k - 1) < ?r \<or> ?r = 2 ^ (?k - 1) \<and> odd ?q) then ?q + 1 else ?q"
  have "s < 2 ^ bits s" by (rule bits_upper)
  also have "(2::nat) ^ bits s \<le> 2 ^ (precision + ?k)" by (intro power_increasing) simp_all
  finally have "s < 2 ^ precision * 2 ^ ?k" by (simp add: power_add)
  then have q: "?q < 2 ^ precision" by (simp add: less_mult_imp_div_less)
  then have q': "?q' \<le> 2 ^ precision" by simp
  have ge: "?q \<le> ?q'" by simp
  show ?thesis
  proof (cases "?q' = 2 ^ precision")
    case True
    with assms have m: "m = 2 ^ (precision - 1)" and e': "e' = e + int (Suc ?k)"
      by (simp_all add: round_double_def Let_def split: if_splits)
    have "?q * 2 ^ ?k \<le> ?q' * 2 ^ ?k" using ge by (rule mult_le_mono1)
    also have "\<dots> = 2 ^ precision * 2 ^ ?k" using True by (simp only:)
    also have "\<dots> = m * 2 ^ Suc ?k"
      by (simp only: m precision_double power_Suc mult.assoc)
    finally have le: "?q * 2 ^ ?k \<le> m * 2 ^ Suc ?k" .
    have "m < 2 ^ precision" unfolding m by (rule half_precision_fits)
    with e' le show ?thesis by (intro conjI exI [of _ "Suc ?k"]) simp_all
  next
    case False
    with assms have m: "m = ?q'" and e': "e' = e + int ?k"
      by (simp_all add: round_double_def Let_def split: if_splits)
    have "?q * 2 ^ ?k \<le> ?q' * 2 ^ ?k" using ge by (rule mult_le_mono1)
    with m have le: "?q * 2 ^ ?k \<le> m * 2 ^ ?k" by simp
    from False q' m have "m < 2 ^ precision" by simp
    with e' le show ?thesis by (intro conjI exI [of _ ?k]) simp_all
  qed
qed

lemma le_double_aligned:
  assumes "c \<le> e1" and "c \<le> e2"
  shows "le_double (Finite m1 e1) (Finite m2 e2) \<longleftrightarrow>
         m1 * 2 ^ nat (e1 - c) \<le> m2 * 2 ^ nat (e2 - c)"
proof -
  let ?e = "min e1 e2"
  let ?d = "nat (?e - c)"
  from assms have 1: "nat (e1 - c) = nat (e1 - ?e) + ?d" and 2: "nat (e2 - c) = nat (e2 - ?e) + ?d"
    by simp_all
  have "m1 * 2 ^ nat (e1 - c) \<le> m2 * 2 ^ nat (e2 - c) \<longleftrightarrow>
        (m1 * 2 ^ nat (e1 - ?e)) * 2 ^ ?d \<le> (m2 * 2 ^ nat (e2 - ?e)) * 2 ^ ?d"
    by (simp only: 1 2 power_add mult.assoc)
  also have "\<dots> \<longleftrightarrow> m1 * 2 ^ nat (e1 - ?e) \<le> m2 * 2 ^ nat (e2 - ?e)"
    by simp
  finally show ?thesis by (simp add: Let_def)
qed

lemma le_double_refl: "le_double x x"
  by (cases x) (simp_all add: Let_def)

lemma le_double_trans:
  assumes "le_double x y" and "le_double y z"
  shows "le_double x z"
proof (cases x)
  case Infinity
  with assms show ?thesis by (cases y; cases z) simp_all
next
  case x: (Finite m1 e1)
  show ?thesis
  proof (cases z)
    case Infinity
    then show ?thesis by simp
  next
    case z: (Finite m3 e3)
    with assms(2) obtain m2 e2 where y: "y = Finite m2 e2" by (cases y) simp_all
    let ?c = "min e1 (min e2 e3)"
    from assms(1) have "m1 * 2 ^ nat (e1 - ?c) \<le> m2 * 2 ^ nat (e2 - ?c)"
      unfolding x y by (subst (asm) le_double_aligned [of ?c]) simp_all
    moreover from assms(2) have "m2 * 2 ^ nat (e2 - ?c) \<le> m3 * 2 ^ nat (e3 - ?c)"
      unfolding y z by (subst (asm) le_double_aligned [of ?c]) simp_all
    ultimately have "m1 * 2 ^ nat (e1 - ?c) \<le> m3 * 2 ^ nat (e3 - ?c)" by simp
    then show ?thesis unfolding x z by (subst le_double_aligned [of ?c]) simp_all
  qed
qed

lemma plus_Finite:
  "Finite m1 e1 + Finite m2 e2 =
     round_double (m1 * 2 ^ nat (e1 - min e1 e2) + m2 * 2 ^ nat (e2 - min e1 e2)) (min e1 e2)"
  by (simp only: plus_double_def fadd.simps Let_def)

lemma plus_Infinity: "Infinity + y = Infinity" "x + Infinity = Infinity"
  by (cases x; simp only: plus_double_def fadd.simps)+

lemma fadd_fits:
  assumes "x + y = Finite m e"
  shows "m < 2 ^ precision"
proof (cases x)
  case Infinity
  with assms show ?thesis by (simp only: plus_Infinity double.distinct)
next
  case x: (Finite m1 e1)
  show ?thesis
  proof (cases y)
    case Infinity
    with assms x show ?thesis by (simp only: plus_Infinity double.distinct)
  next
    case y: (Finite m2 e2)
    from assms have "round_double (m1 * 2 ^ nat (e1 - min e1 e2) + m2 * 2 ^ nat (e2 - min e1 e2))
                       (min e1 e2) = Finite m e"
      by (simp only: x y plus_Finite)
    from round_double_Finite [OF this] show ?thesis by blast
  qed
qed

lemma fadd_increases:
  assumes "a < 2 ^ precision"
  shows "le_double (Finite a ea) (Finite a ea + y)"
proof (cases y)
  case Infinity
  then show ?thesis by (simp only: plus_Infinity le_double.simps)
next
  case (Finite b eb)
  define e where "e = min ea eb"
  have e: "e \<le> ea" "e \<le> eb" by (simp_all add: e_def)
  define s where "s = a * 2 ^ nat (ea - e) + b * 2 ^ nat (eb - e)"
  have sum: "Finite a ea + y = round_double s e"
    by (simp only: Finite plus_Finite e_def s_def)
  show ?thesis
  proof (cases "round_double s e")
    case Infinity
    with sum show ?thesis by (simp only: le_double.simps)
  next
    case r: (Finite m e')
    from round_double_Finite [OF r] obtain k where
      k: "e' = e + int k" "(s div 2 ^ (bits s - precision)) * 2 ^ (bits s - precision) \<le> m * 2 ^ k"
      by blast
    have "a * 2 ^ nat (ea - e) \<le> s" by (simp add: s_def)
    from floor_multiple_ge [OF assms this] k(2)
    have "a * 2 ^ nat (ea - e) \<le> m * 2 ^ k" by (rule order_trans)
    moreover have "nat (e' - e) = k" using k(1) by simp
    ultimately have "a * 2 ^ nat (ea - e) \<le> m * 2 ^ nat (e' - e)" by (simp only:)
    moreover have "e \<le> e'" using k(1) by simp
    ultimately have "le_double (Finite a ea) (Finite m e')"
      using e(1) by (simp only: le_double_aligned [of e])
    with sum r show ?thesis by (simp only:)
  qed
qed

section \<open>The ledger of a run\<close>

text \<open>
  Wrapping the providers in a ledger changes nothing of what they answer, and the total
  of the metrics after a run is the total before it with the costs of the ledger added
  one after the other.
\<close>

lemma significand_fits_plus: "significand_fits (x + y)"
proof (cases "x + y")
  case (Finite m e)
  from fadd_fits [OF this] Finite show ?thesis by (simp add: significand_fits_def)
next
  case Infinity
  then show ?thesis by (simp add: significand_fits_def)
qed

lemma plus_increases: "significand_fits x \<Longrightarrow> le_double x (x + y)"
proof (cases x)
  case (Finite a ea)
  assume "significand_fits x"
  with Finite have "a < 2 ^ precision" by (simp add: significand_fits_def)
  from fadd_increases [OF this] Finite show ?thesis by (simp only:)
next
  case Infinity
  then show ?thesis by (simp only: plus_Infinity le_double.simps)
qed

lemma foldl_plus_increases:
  "significand_fits t \<Longrightarrow>
   le_double t (foldl (+) t cs) \<and> significand_fits (foldl (+) t cs)"
proof (induction cs arbitrary: t)
  case Nil
  then show ?case by (simp add: le_double_refl)
next
  case (Cons c cs)
  have "significand_fits (t + c)" by (rule significand_fits_plus)
  from Cons.IH [OF this] have
    "le_double (t + c) (foldl (+) (t + c) cs)" "significand_fits (foldl (+) (t + c) cs)"
    by simp_all
  with le_double_trans [OF plus_increases [OF Cons.prems]] show ?case by simp
qed

lemma provider_of_metered:
  "provider_of (metered gpt4o) (metered o3) operation = metered (provider_of gpt4o o3 operation)"
  by (cases operation) simp_all

lemma metered_step:
  "metered provider prompt (w, ledger) =
     (fst (provider prompt w), snd (provider prompt w), ledger @ paid [fst (provider prompt w)])"
  by (simp add: metered_def split: prod.splits)

lemma world_after_metered:
  "world_after (metered provider) prompt n (w, ledger) =
     (world_after provider prompt n w,
      ledger @ paid (map (\<lambda>i. response provider prompt i w) [0..<n]))"
proof (induction n)
  case 0
  then show ?case by simp
next
  case (Suc n)
  have "world_after (metered provider) prompt (Suc n) (w, ledger) =
        snd (metered provider prompt (world_after (metered provider) prompt n (w, ledger)))"
    by (rule world_after_Suc_end)
  also have "\<dots> = (snd (provider prompt (world_after provider prompt n w)),
      (ledger @ paid (map (\<lambda>i. response provider prompt i w) [0..<n])) @
        paid [response provider prompt n w])"
    by (simp only: Suc metered_step snd_conv response_def)
  also have "\<dots> = (world_after provider prompt (Suc n) w,
      ledger @ paid (map (\<lambda>i. response provider prompt i w) [0..<Suc n]))"
    by (simp add: world_after_Suc_end paid_append del: world_after.simps)
  finally show ?case .
qed

lemma response_metered:
  "response (metered provider) prompt n (w, ledger) = response provider prompt n w"
  by (simp only: response_def world_after_metered metered_step fst_conv)

lemma metered_after:
  "world_after (metered provider) prompt n (w, ledger) =
     (world_after provider prompt n w,
      ledger @ paid (map (\<lambda>i. response provider prompt i w) [0..<n])) \<and>
   response (metered provider) prompt n (w, ledger) = response provider prompt n w"
  by (simp only: world_after_metered response_metered)

lemma perform_metered:
  assumes "perform (metered gpt4o) (metered o3) operation prompt m (w, ledger) = Some (r, m', (w', ledger'))"
  shows "\<exists>costs. ledger' = ledger @ costs \<and> total_cost m' = foldl (+) (total_cost m) costs"
proof -
  let ?P = "provider_of gpt4o o3 operation"
  from perform_returned [OF assms] obtain k where
    "m' = charged (metered ?P) prompt (Suc k) m (w, ledger)"
    "(w', ledger') = world_after (metered ?P) prompt (Suc k) (w, ledger)"
    by (auto simp: provider_of_metered)
  then have "ledger' = ledger @ paid (map (\<lambda>i. response ?P prompt i w) [0..<Suc k])"
    and "total_cost m' = foldl (+) (total_cost m) (paid (map (\<lambda>i. response ?P prompt i w) [0..<Suc k]))"
    by (simp_all only: metered_after total_cost_charged prod.inject)
  then show ?thesis by blast
qed

lemma run_metered:
  "run (metered gpt4o) (metered o3) calls m (w, ledger) = Some (rs, m', (w', ledger')) \<Longrightarrow>
   \<exists>costs. ledger' = ledger @ costs \<and> total_cost m' = foldl (+) (total_cost m) costs"
proof (induction calls arbitrary: m w ledger rs)
  case Nil
  then show ?case by simp
next
  case (Cons call calls)
  obtain operation prompt where call: "call = (operation, prompt)" by (cases call)
  from Cons.prems call obtain r m1 w1 l1 rs1 where
    first: "perform (metered gpt4o) (metered o3) operation prompt m (w, ledger) = Some (r, m1, (w1, l1))"
    and rest: "run (metered gpt4o) (metered o3) calls m1 (w1, l1) = Some (rs1, m', (w', ledger'))"
    by (auto split: option.splits)
  from perform_metered [OF first] obtain c1 where
    c1: "l1 = ledger @ c1" "total_cost m1 = foldl (+) (total_cost m) c1" by blast
  from Cons.IH [OF rest] obtain c2 where
    c2: "ledger' = l1 @ c2" "total_cost m' = foldl (+) (total_cost m1) c2" by blast
  from c1 c2 have "ledger' = ledger @ (c1 @ c2) \<and> total_cost m' = foldl (+) (total_cost m) (c1 @ c2)"
    by simp
  then show ?case by blast
qed

lemma perform_total_cost:
  assumes "perform gpt4o o3 operation prompt m w = Some (r, m', w')"
  shows "\<exists>costs. total_cost m' = foldl (+) (total_cost m) costs"
proof -
  from perform_returned [OF assms] obtain k where
    "m' = charged (provider_of gpt4o o3 operation) prompt (Suc k) m w" by auto
  then show ?thesis by (auto simp only: total_cost_charged)
qed

lemma perform_increases:
  fixes gpt4o o3 :: "(double, 'w) provider"
  assumes "perform gpt4o o3 operation prompt m w = Some (r, m', w')"
    and "significand_fits (total_cost m)"
  shows "le_double (total_cost m) (total_cost m') \<and> significand_fits (total_cost m')"
proof -
  from perform_total_cost [OF assms(1)] obtain costs where
    "total_cost m' = foldl (+) (total_cost m) costs" by blast
  with foldl_plus_increases [OF assms(2), of costs] show ?thesis by simp
qed

lemma bits_values:
  "bits 3602879701896397 = 52"
  "bits 10808639105689191 = 54"
  "bits 5404319552844596 = 53"
  "bits 5404319552844595 = 53"
  "bits 9007199254740992 = 54"
  "bits 4503599627370496 = 53"
  "bits 21617278211378381 = 55"
  by (simp_all add: bits.simps)

lemma sums_ascending:
  "0 + Finite 3602879701896397 (- 55) = Finite 3602879701896397 (- 55)"
  "Finite 3602879701896397 (- 55) + Finite 3602879701896397 (- 54) = Finite 5404319552844596 (- 54)"
  "Finite 5404319552844596 (- 54) + Finite 5404319552844595 (- 54) = Finite 5404319552844596 (- 53)"
  by (simp_all add: zero_double_def plus_Finite round_double_def bits_values precision_def Let_def)

lemma sums_descending:
  "0 + Finite 5404319552844595 (- 54) = Finite 5404319552844595 (- 54)"
  "Finite 5404319552844595 (- 54) + Finite 3602879701896397 (- 54) = Finite 4503599627370496 (- 53)"
  "Finite 4503599627370496 (- 53) + Finite 3602879701896397 (- 55) = Finite 5404319552844595 (- 53)"
  by (simp_all add: zero_double_def plus_Finite round_double_def bits_values precision_def Let_def)

lemma three_classify_calls:
  fixes c1 c2 c3 :: "'c::plus"
  shows "run (scripted [Inr (Some (''XXX'', c1)), Inr (Some (''XXX'', c2)), Inr (Some (''XXX'', c3))])
       (scripted [])
       [(Classify, p1), (Classify, p2), (Classify, p3)] m []
   = Some ([Inr (''XXX'', Decision ''potentially relevant''),
            Inr (''XXX'', Decision ''potentially relevant''),
            Inr (''XXX'', Decision ''potentially relevant'')],
           add_cost (add_cost (add_cost m c1) c2) c3,
           [p1, p2, p3])"
proof -
  let ?script = "[Inr (Some (''XXX'', c1)), Inr (Some (''XXX'', c2)), Inr (Some (''XXX'', c3))]"
  have found: "classify_decision ''XXX'' = Some ''potentially relevant''" by code_simp
  have call1: "scripted ?script p1 [] = (Inr (Some (''XXX'', c1)), [p1])"
    by (simp add: scripted_def)
  have call2: "scripted ?script p2 [p1] = (Inr (Some (''XXX'', c2)), [p1, p2])"
    by (simp add: scripted_def)
  have call3: "scripted ?script p3 [p1, p2] = (Inr (Some (''XXX'', c3)), [p1, p2, p3])"
    by (simp add: scripted_def)
  show ?thesis
    using retry_loop_answer [where provider = "scripted ?script" and extr = classify_decision
            and m = m, OF call1 found]
          retry_loop_answer [where provider = "scripted ?script" and extr = classify_decision
            and m = "add_cost m c1", OF call2 found]
          retry_loop_answer [where provider = "scripted ?script" and extr = classify_decision
            and m = "add_cost (add_cost m c1) c2", OF call3 found]
    by (simp add: classify_def tagged_def)
qed

section \<open>Claim C6: the total cost is a running sum of floats\<close>

text \<open>
  C6. For every tier and every sequence of N successful provider calls with non-negative
  costs c1..cN (including calls made during malformed-output retries), the tier's Metrics
  total_cost after the sequence equals the sum c1+...+cN exactly, the total is the same
  for every ordering of the calls, and total_cost never decreases across any operation.

  The total is a float and each \<^verbatim>\<open>+=\<close> rounds, so it depends on the order of the calls.
  Three \<^verbatim>\<open>classify\<close> calls that cost \<^verbatim>\<open>0.1\<close>, \<^verbatim>\<open>0.2\<close> and \<^verbatim>\<open>0.3\<close>, on fresh metrics: in this order the
  total goes \<^verbatim>\<open>0.1\<close>, \<^verbatim>\<open>0.30000000000000004\<close>, \<^verbatim>\<open>0.6000000000000001\<close>; in the opposite order it
  goes \<^verbatim>\<open>0.3\<close>, \<^verbatim>\<open>0.5\<close>, \<^verbatim>\<open>0.6\<close>. The same three calls give two different totals, so the total
  is not a sum that is independent of the order. As binary64 numbers \<^verbatim>\<open>0.1\<close> is
  \<open>3602879701896397 * 2 ^ (- 55)\<close>, \<^verbatim>\<open>0.2\<close> is \<open>3602879701896397 * 2 ^ (- 54)\<close>, \<^verbatim>\<open>0.3\<close> is
  \<open>5404319552844595 * 2 ^ (- 54)\<close>, \<^verbatim>\<open>0.6\<close> is \<open>5404319552844595 * 2 ^ (- 53)\<close> and
  \<^verbatim>\<open>0.6000000000000001\<close> is \<open>5404319552844596 * 2 ^ (- 53)\<close>.
\<close>

theorem total_cost_depends_on_order:
  "run (scripted [Inr (Some (''XXX'', Finite 3602879701896397 (- 55))),
                  Inr (Some (''XXX'', Finite 3602879701896397 (- 54))),
                  Inr (Some (''XXX'', Finite 5404319552844595 (- 54)))])
       (scripted [])
       [(Classify, ''first''), (Classify, ''second''), (Classify, ''third'')]
       ScreeningMetrics_init []
   = Some ([Inr (''XXX'', Decision ''potentially relevant''),
            Inr (''XXX'', Decision ''potentially relevant''),
            Inr (''XXX'', Decision ''potentially relevant'')],
           \<lparr>total_cost = Finite 5404319552844596 (- 53),
            total_disagreements = 0, total_processed = 0\<rparr>,
           [''first'', ''second'', ''third'']) \<and>
   run (scripted [Inr (Some (''XXX'', Finite 5404319552844595 (- 54))),
                  Inr (Some (''XXX'', Finite 3602879701896397 (- 54))),
                  Inr (Some (''XXX'', Finite 3602879701896397 (- 55)))])
       (scripted [])
       [(Classify, ''third''), (Classify, ''second''), (Classify, ''first'')]
       ScreeningMetrics_init []
   = Some ([Inr (''XXX'', Decision ''potentially relevant''),
            Inr (''XXX'', Decision ''potentially relevant''),
            Inr (''XXX'', Decision ''potentially relevant'')],
           \<lparr>total_cost = Finite 5404319552844595 (- 53),
            total_disagreements = 0, total_processed = 0\<rparr>,
           [''third'', ''second'', ''first'']) \<and>
   \<not> le_double (Finite 5404319552844596 (- 53)) (Finite 5404319552844595 (- 53))"
proof -
  have up: "add_cost (add_cost (add_cost ScreeningMetrics_init (Finite 3602879701896397 (- 55)))
              (Finite 3602879701896397 (- 54))) (Finite 5404319552844595 (- 54))
            = \<lparr>total_cost = Finite 5404319552844596 (- 53),
               total_disagreements = 0, total_processed = 0\<rparr>"
    by (simp add: add_cost_def ScreeningMetrics_init_def sums_ascending)
  have down: "add_cost (add_cost (add_cost ScreeningMetrics_init (Finite 5404319552844595 (- 54)))
              (Finite 3602879701896397 (- 54))) (Finite 3602879701896397 (- 55))
            = \<lparr>total_cost = Finite 5404319552844595 (- 53),
               total_disagreements = 0, total_processed = 0\<rparr>"
    by (simp add: add_cost_def ScreeningMetrics_init_def sums_descending)
  have apart: "\<not> le_double (Finite 5404319552844596 (- 53)) (Finite 5404319552844595 (- 53))"
    by simp
  show ?thesis
    by (simp only: three_classify_calls up down apart simp_thms)
qed

text \<open>
  C6, amended. For every tier and every sequence of N successful provider calls with
  non-negative costs c1..cN (including calls made during malformed-output retries), the
  tier's Metrics total_cost after the sequence is the running float sum
  \<^verbatim>\<open>(((0.0 + c1) + c2) + ...) + cN\<close> taken in the order of the calls, each addition rounded
  to the nearest float; it can differ between orderings of the same calls; and
  total_cost never decreases across any operation.

  After any run of operations whose providers keep a ledger from empty, the total of the
  metrics is the total before the run with the costs of the ledger added from left to
  right. Across any operation that comes back, with a decision, an agreement or an
  exception, the total does not decrease, and it stays a binary64 number when it was
  one.
\<close>

theorem total_cost_is_running_sum:
  fixes gpt4o o3 :: "(double, 'w) provider" and provider provider' :: "(double, 'v) provider"
  shows
    "(run (metered gpt4o) (metered o3) calls m (w, []) = Some (rs, m', (w', ledger)) \<longrightarrow>
        total_cost m' = foldl (+) (total_cost m) ledger) \<and>
     (perform provider provider' operation prompt n v = Some (r, n', v') \<and>
        significand_fits (total_cost n) \<longrightarrow>
        le_double (total_cost n) (total_cost n') \<and> significand_fits (total_cost n'))"
proof (intro conjI impI)
  assume "run (metered gpt4o) (metered o3) calls m (w, []) = Some (rs, m', (w', ledger))"
  from run_metered [OF this] show "total_cost m' = foldl (+) (total_cost m) ledger"
    by simp
next
  assume a: "perform provider provider' operation prompt n v = Some (r, n', v') \<and>
        significand_fits (total_cost n)"
  from perform_increases [OF conjunct1 [OF a] conjunct2 [OF a]]
  show "le_double (total_cost n) (total_cost n')" by simp
next
  assume a: "perform provider provider' operation prompt n v = Some (r, n', v') \<and>
        significand_fits (total_cost n)"
  from perform_increases [OF conjunct1 [OF a] conjunct2 [OF a]]
  show "significand_fits (total_cost n')" by simp
qed

theorem total_cost_is_running_sum_witness:
  "run (metered (scripted [Inr (Some (''unclear'', Finite 3602879701896397 (- 55))),
                           Inr (Some (''XXX relevant'', Finite 3602879701896397 (- 54)))]))
       (metered (scripted []))
       [(Classify, ''classify this'')] ScreeningMetrics_init ([], [])
   = Some ([Inr (''XXX relevant'', Decision ''potentially relevant'')],
           \<lparr>total_cost = Finite 5404319552844596 (- 54),
            total_disagreements = 0, total_processed = 0\<rparr>,
           ([''classify this'', ''classify this''],
            [Finite 3602879701896397 (- 55), Finite 3602879701896397 (- 54)])) \<and>
   Finite 5404319552844596 (- 54) =
     foldl (+) 0 [Finite 3602879701896397 (- 55), Finite 3602879701896397 (- 54)] \<and>
   significand_fits (0 :: double) \<and>
   le_double 0 (Finite 5404319552844596 (- 54)) \<and>
   significand_fits (Finite 5404319552844596 (- 54))"
proof -
  let ?g = "metered (scripted [Inr (Some (''unclear'', Finite 3602879701896397 (- 55))),
                               Inr (Some (''XXX relevant'', Finite 3602879701896397 (- 54)))])"
  let ?o = "metered (scripted [] :: (double, string list) provider)"
  let ?m' = "\<lparr>total_cost = Finite 5404319552844596 (- 54),
              total_disagreements = 0, total_processed = 0\<rparr>"
  let ?w' = "([''classify this'', ''classify this''],
              [Finite 3602879701896397 (- 55), Finite 3602879701896397 (- 54)])"
  have first: "provider_of ?g ?o Classify ''classify this'' ([], []) =
                 (Inr (Some (''unclear'', Finite 3602879701896397 (- 55))),
                  ([''classify this''], [Finite 3602879701896397 (- 55)]))"
    by (simp add: metered_def scripted_def)
  have bad: "\<not> recognised Classify ''unclear''"
    by (simp add: recognised_def lower_def)
  have second: "?g ''classify this'' ([''classify this''], [Finite 3602879701896397 (- 55)]) =
                 (Inr (Some (''XXX relevant'', Finite 3602879701896397 (- 54))), ?w')"
    by (simp add: metered_def scripted_def)
  have found: "classify_decision ''XXX relevant'' = Some ''potentially relevant''" by code_simp
  have total: "add_cost (add_cost ScreeningMetrics_init (Finite 3602879701896397 (- 55)))
                 (Finite 3602879701896397 (- 54)) = ?m'"
    by (simp add: add_cost_def ScreeningMetrics_init_def sums_ascending)
  have start: "total_cost (ScreeningMetrics_init :: double ScreeningMetrics) = 0"
    by (simp add: ScreeningMetrics_init_def)
  have fits: "significand_fits (total_cost (ScreeningMetrics_init :: double ScreeningMetrics))"
    by (simp add: ScreeningMetrics_init_def significand_fits_def zero_double_def)
  have op: "perform ?g ?o Classify ''classify this'' ScreeningMetrics_init ([], []) =
              Some (Inr (''XXX relevant'', Decision ''potentially relevant''), ?m', ?w')"
    using perform_retry_step [OF first bad, of ScreeningMetrics_init]
          retry_loop_answer [where provider = ?g and extr = classify_decision
            and m = "add_cost ScreeningMetrics_init (Finite 3602879701896397 (- 55))",
            OF second found]
    by (simp add: classify_def tagged_def total)
  then have all: "run ?g ?o [(Classify, ''classify this'')] ScreeningMetrics_init ([], []) =
              Some ([Inr (''XXX relevant'', Decision ''potentially relevant'')], ?m', ?w')"
    by simp
  from total_cost_is_running_sum [THEN conjunct1, rule_format, OF all]
  have sum: "Finite 5404319552844596 (- 54) =
     foldl (+) 0 [Finite 3602879701896397 (- 55), Finite 3602879701896397 (- 54)]"
    by (simp only: start ScreeningMetrics.simps)
  from total_cost_is_running_sum [THEN conjunct2, rule_format, OF conjI [OF op fits]]
  have "le_double 0 (Finite 5404319552844596 (- 54)) \<and>
        significand_fits (Finite 5404319552844596 (- 54))"
    by (simp only: start ScreeningMetrics.simps)
  with all sum fits show ?thesis by (simp only: start simp_thms)
qed

end
